theory Spec2Isabelle
  imports Main "HOL-Library.Log_Nat"
begin

section \<open>Values\<close>

text \<open>
  The program is \<^verbatim>\<open>yelp_happy_hour.py\<close>: \<^verbatim>\<open>search_businesses\<close> pages through the
  answers of a search service, \<^verbatim>\<open>extract_business_info\<close> reshapes every record, and
  \<^verbatim>\<open>save_to_json\<close> writes the records to a file.

  The values that travel through the program are the ones \<^verbatim>\<open>response.json()\<close> builds:
  \<^verbatim>\<open>None\<close>, booleans, unbounded integers, floats, strings, lists and dictionaries with
  string keys. A float is \<open>Finite m e\<close> (the number \<open>m * 2 ^ e\<close>; the sign of a zero is
  not kept), an infinity with its sign (\<open>True\<close> for the negative one) or \<open>NaN\<close>. A \<^verbatim>\<open>str\<close>
  is the list of its characters. A dictionary is the list of its items in insertion
  order; a lookup takes the first item with the key.
\<close>

datatype pyfloat = Finite int int | Infinite bool | NaN

datatype json =
    JNull
  | JBool bool
  | JInt int
  | JFloat pyfloat
  | JStr string
  | JList "json list"
  | JObj "(string \<times> json) list"

text \<open>The exceptions that the modelled code can raise.\<close>

datatype error =
    AttributeError
  | TypeError
  | ValueError
  | OverflowError
  | JSONDecodeError
  | RequestException
  | NameError
  | SyntaxError
  | OSError

text \<open>Sequencing of computations that may raise: the first exception wins.\<close>

definition bind_err :: "error + 'a \<Rightarrow> ('a \<Rightarrow> error + 'b) \<Rightarrow> error + 'b" where
  "bind_err m f = (case m of Inl e \<Rightarrow> Inl e | Inr x \<Rightarrow> f x)"

text \<open>
  \<^verbatim>\<open>obj.get(key, default)\<close>: only a dictionary has the method; on every other value the
  attribute lookup raises \<^verbatim>\<open>AttributeError\<close>.
\<close>

fun dict_get :: "json \<Rightarrow> string \<Rightarrow> json \<Rightarrow> error + json" where
  "dict_get (JObj kvs) k d = Inr (case map_of kvs k of None \<Rightarrow> d | Some v \<Rightarrow> v)"
| "dict_get _ k d = Inl AttributeError"

text \<open>The keys of a dictionary, each once, in the order of their first item.\<close>

definition dict_keys :: "(string \<times> json) list \<Rightarrow> string list" where
  "dict_keys kvs = rev (remdups (rev (map fst kvs)))"

text \<open>
  Iteration (\<^verbatim>\<open>for x in v\<close>, \<^verbatim>\<open>list.extend(v)\<close>, \<^verbatim>\<open>str.join(v)\<close>): a list gives its
  elements, a string its characters as one-character strings, a dictionary its keys;
  anything else raises \<^verbatim>\<open>TypeError\<close>.
\<close>

fun py_iter :: "json \<Rightarrow> error + json list" where
  "py_iter (JList xs) = Inr xs"
| "py_iter (JStr s) = Inr (map (\<lambda>c. JStr [c]) s)"
| "py_iter (JObj kvs) = Inr (map JStr (dict_keys kvs))"
| "py_iter _ = Inl TypeError"

text \<open>\<^verbatim>\<open>sep.join(v)\<close>: every element must be a string.\<close>

fun join :: "string \<Rightarrow> string list \<Rightarrow> string" where
  "join sep [] = []"
| "join sep [s] = s"
| "join sep (s # t # ss) = s @ sep @ join sep (t # ss)"

fun strings_of :: "json list \<Rightarrow> error + string list" where
  "strings_of [] = Inr []"
| "strings_of (JStr s # vs) = bind_err (strings_of vs) (\<lambda>ss. Inr (s # ss))"
| "strings_of (_ # vs) = Inl TypeError"

definition str_join :: "string \<Rightarrow> json \<Rightarrow> error + json" where
  "str_join sep v =
     bind_err (py_iter v) (\<lambda>items.
     bind_err (strings_of items) (\<lambda>ss. Inr (JStr (join sep ss))))"

text \<open>A list comprehension \<^verbatim>\<open>[f(x) for x in v]\<close>: stops at the first exception.\<close>

fun map_err :: "('a \<Rightarrow> error + 'b) \<Rightarrow> 'a list \<Rightarrow> error + 'b list" where
  "map_err f [] = Inr []"
| "map_err f (x # xs) =
     bind_err (f x) (\<lambda>y. bind_err (map_err f xs) (\<lambda>ys. Inr (y # ys)))"

definition list_comp :: "(json \<Rightarrow> error + json) \<Rightarrow> json \<Rightarrow> error + json" where
  "list_comp f v = bind_err (py_iter v) (\<lambda>items. bind_err (map_err f items) (\<lambda>ys. Inr (JList ys)))"

section \<open>The Extractor\<close>

text \<open>
  The body of the \<^verbatim>\<open>for\<close> loop of \<^verbatim>\<open>extract_business_info\<close>: the dictionary \<^verbatim>\<open>info\<close>
  built from one \<^verbatim>\<open>business\<close>. The entries of the dictionary display are evaluated
  from top to bottom.
\<close>

definition extract_info :: "json \<Rightarrow> error + json" where
  "extract_info business =
     bind_err (dict_get business ''name'' JNull) (\<lambda>name.
     bind_err (dict_get business ''rating'' JNull) (\<lambda>rating.
     bind_err (dict_get business ''review_count'' JNull) (\<lambda>review_count.
     bind_err (bind_err (bind_err (dict_get business ''location'' (JObj []))
                 (\<lambda>location. dict_get location ''display_address'' (JList [])))
                 (str_join '', '')) (\<lambda>address.
     bind_err (bind_err (dict_get business ''location'' (JObj []))
                 (\<lambda>location. dict_get location ''city'' JNull)) (\<lambda>city.
     bind_err (bind_err (dict_get business ''location'' (JObj []))
                 (\<lambda>location. dict_get location ''zip_code'' JNull)) (\<lambda>zip_code.
     bind_err (dict_get business ''phone'' JNull) (\<lambda>phone.
     bind_err (dict_get business ''url'' JNull) (\<lambda>website.
     bind_err (dict_get business ''coordinates'' JNull) (\<lambda>coordinates.
     bind_err (bind_err (dict_get business ''categories'' (JList []))
                 (list_comp (\<lambda>category. dict_get category ''title'' JNull))) (\<lambda>categories.
     bind_err (dict_get business ''price'' (JStr ''N/A'')) (\<lambda>price.
     Inr (JObj
       [(''name'', name),
        (''rating'', rating),
        (''review_count'', review_count),
        (''address'', address),
        (''city'', city),
        (''zip_code'', zip_code),
        (''phone'', phone),
        (''website'', website),
        (''coordinates'', coordinates),
        (''categories'', categories),
        (''price'', price)]))))))))))))"

text \<open>
  The loop of \<^verbatim>\<open>extract_business_info\<close>, with the list \<^verbatim>\<open>business_info\<close> that it
  appends to as an accumulator.
\<close>

fun extract_loop :: "json list \<Rightarrow> json list \<Rightarrow> error + json list" where
  "extract_loop [] business_info = Inr business_info"
| "extract_loop (business # rest) business_info =
     bind_err (extract_info business) (\<lambda>info. extract_loop rest (business_info @ [info]))"

definition extract_business_info :: "json list \<Rightarrow> error + json list" where
  "extract_business_info businesses = extract_loop businesses []"

text \<open>
  A raw record as the data model of the specification describes it: a dictionary whose
  \<^verbatim>\<open>location\<close>, when present, is a dictionary whose \<^verbatim>\<open>display_address\<close>, when present,
  is a list of strings, and whose \<^verbatim>\<open>categories\<close>, when present, are a list of
  dictionaries.
\<close>

fun is_str :: "json \<Rightarrow> bool" where
  "is_str (JStr s) = True"
| "is_str _ = False"

fun is_dict :: "json \<Rightarrow> bool" where
  "is_dict (JObj kvs) = True"
| "is_dict _ = False"

fun location_ok :: "json \<Rightarrow> bool" where
  "location_ok (JObj kvs) =
     (case map_of kvs ''display_address'' of
        None \<Rightarrow> True
      | Some (JList ls) \<Rightarrow> list_all is_str ls
      | Some _ \<Rightarrow> False)"
| "location_ok _ = False"

fun raw_record_ok :: "json \<Rightarrow> bool" where
  "raw_record_ok (JObj kvs) =
     ((case map_of kvs ''location'' of None \<Rightarrow> True | Some l \<Rightarrow> location_ok l) \<and>
      (case map_of kvs ''categories'' of
         None \<Rightarrow> True
       | Some (JList cs) \<Rightarrow> list_all is_dict cs
       | Some _ \<Rightarrow> False))"
| "raw_record_ok _ = False"

section \<open>Floating point\<close>

text \<open>
  Rounding of the exact number \<open>m * 2 ^ e\<close> to the nearest binary64 value, ties to the
  even significand: 53 bits of precision, no quantum finer than \<open>2 ^ - 1074\<close>, and an
  infinity once the rounded magnitude reaches \<open>2 ^ 1024\<close>. \<open>nearest a d\<close> is the
  integer nearest to \<open>a / d\<close>, the even one of two equally near.
\<close>

definition nearest :: "int \<Rightarrow> int \<Rightarrow> int" where
  "nearest a d =
     (let t = a div d; r = a mod d
      in if d < 2 * r \<or> (2 * r = d \<and> odd t) then t + 1 else t)"

definition round_double :: "int \<Rightarrow> int \<Rightarrow> pyfloat" where
  "round_double m e =
     (let a = \<bar>m\<bar>;
          s = max (bitlen a - 53) (- 1074 - e);
          q = (if s \<le> 0 then a else nearest a (2 ^ nat s));
          x = (if s \<le> 0 then e else e + s)
      in if 0 \<le> x \<and> 2 ^ 1024 \<le> q * 2 ^ nat x then Infinite (m < 0)
         else Finite (sgn m * q) x)"

text \<open>\<^verbatim>\<open>float(n)\<close> of an integer, as the mixed product \<^verbatim>\<open>n * x\<close> does first.\<close>

definition float_of_int :: "int \<Rightarrow> error + pyfloat" where
  "float_of_int n =
     (case round_double n 0 of
        Infinite _ \<Rightarrow> Inl OverflowError
      | x \<Rightarrow> Inr x)"

fun float_mul :: "pyfloat \<Rightarrow> pyfloat \<Rightarrow> pyfloat" where
  "float_mul (Finite m1 e1) (Finite m2 e2) = round_double (m1 * m2) (e1 + e2)"
| "float_mul NaN _ = NaN"
| "float_mul _ NaN = NaN"
| "float_mul (Infinite a) (Infinite b) = Infinite (a \<noteq> b)"
| "float_mul (Infinite a) (Finite m e) = (if m = 0 then NaN else Infinite (a \<noteq> (m < 0)))"
| "float_mul (Finite m e) (Infinite b) = (if m = 0 then NaN else Infinite ((m < 0) \<noteq> b))"

text \<open>\<^verbatim>\<open>int(x)\<close> of a float: truncation toward zero.\<close>

fun int_of_float :: "pyfloat \<Rightarrow> error + int" where
  "int_of_float (Finite m e) =
     Inr (if 0 \<le> e then m * 2 ^ nat e else sgn m * (\<bar>m\<bar> div 2 ^ nat (- e)))"
| "int_of_float (Infinite _) = Inl OverflowError"
| "int_of_float NaN = Inl ValueError"

text \<open>The literal \<^verbatim>\<open>1609.34\<close>: the binary64 value \<^verbatim>\<open>0x1.9255c28f5c28fp+10\<close>.\<close>

definition meters_per_mile :: pyfloat where
  "meters_per_mile = Finite 7077952172180111 (- 42)"

text \<open>\<^verbatim>\<open>radius_meters = int(radius_miles * 1609.34)\<close>\<close>

definition miles_to_meters :: "int \<Rightarrow> error + int" where
  "miles_to_meters radius_miles =
     bind_err (float_of_int radius_miles) (\<lambda>miles.
     int_of_float (float_mul miles meters_per_mile))"


section \<open>The Paginator\<close>

text \<open>
  Two things keep every call of \<^verbatim>\<open>search_businesses\<close>, as the source has it, from
  reaching the loop. The parameter list of line 6 has, where the docstring puts
  \<^verbatim>\<open>api_key\<close>, a token of 128 characters with two hyphens in it, which is not an
  identifier: Python rejects the \<^verbatim>\<open>def\<close> with a \<^verbatim>\<open>SyntaxError\<close>. And the name
  \<^verbatim>\<open>api_key\<close>, which line 28 reads for the \<^verbatim>\<open>Authorization\<close> header, is bound
  neither by the parameter list nor by the module. The body of the function is
  therefore modelled with the binding of \<^verbatim>\<open>api_key\<close> as a parameter (\<open>None\<close> when
  the name is unbound), the loop with the headers as a parameter, and the function
  itself as the source has it. The defaults of the parameters (25 miles,
  \<^verbatim>\<open>"happy hour"\<close>, 50 per page) are given explicitly wherever a function is applied.

  The remote service is a parameter of the model: it answers the \<open>k\<close>-th call of
  \<^verbatim>\<open>requests.get\<close> (counting from 0), given the request, either with a response or
  with an exception (a network failure). A response carries its status code and what
  \<^verbatim>\<open>response.json()\<close> returns for it (\<open>None\<close> when the body is not JSON and the
  call raises). The progress and error lines that the loop prints are not modelled.
\<close>

record request =
  url :: string
  headers :: "(string \<times> string) list"
  params :: "(string \<times> json) list"

record response =
  status_code :: int
  json_body :: "json option"

type_synonym service = "nat \<Rightarrow> request \<Rightarrow> error + response"

text \<open>
  The variables that the loop updates; \<open>sent\<close> records the requests issued so far.
\<close>

record loop_state =
  all_businesses :: "json list"
  offset :: int
  total_fetched :: int
  sent :: "request list"

text \<open>How one round of the loop ends: it goes round again, breaks, or raises.\<close>

datatype step = Continue loop_state | Break loop_state | Raise error loop_state

text \<open>Truth value of a value, as in \<^verbatim>\<open>if not businesses\<close>.\<close>

fun truthy :: "json \<Rightarrow> bool" where
  "truthy JNull = False"
| "truthy (JBool b) = b"
| "truthy (JInt n) = (n \<noteq> 0)"
| "truthy (JFloat (Finite m e)) = (m \<noteq> 0)"
| "truthy (JFloat _) = True"
| "truthy (JStr s) = (s \<noteq> [])"
| "truthy (JList xs) = (xs \<noteq> [])"
| "truthy (JObj kvs) = (kvs \<noteq> [])"

text \<open>
  \<^verbatim>\<open>total_fetched >= total\<close>: an integer is compared with an integer, a boolean or a
  float by value; any other right-hand side raises \<^verbatim>\<open>TypeError\<close>.
\<close>

fun float_le_int :: "pyfloat \<Rightarrow> int \<Rightarrow> bool" where
  "float_le_int (Finite m e) n =
     (if 0 \<le> e then m * 2 ^ nat e \<le> n else m \<le> n * 2 ^ nat (- e))"
| "float_le_int (Infinite negative) n = negative"
| "float_le_int NaN n = False"

fun int_ge :: "int \<Rightarrow> json \<Rightarrow> error + bool" where
  "int_ge n (JInt t) = Inr (t \<le> n)"
| "int_ge n (JBool b) = Inr ((if b then 1 else 0) \<le> n)"
| "int_ge n (JFloat x) = Inr (float_le_int x n)"
| "int_ge n _ = Inl TypeError"

text \<open>
  The request of one round: \<^verbatim>\<open>requests.get(url, headers=headers, params=params)\<close>
  with the dictionary \<^verbatim>\<open>params\<close> that the loop builds from the current offset.
\<close>

definition search_request ::
  "(string \<times> string) list \<Rightarrow> string \<Rightarrow> pyfloat \<Rightarrow> pyfloat \<Rightarrow> int \<Rightarrow> int \<Rightarrow> int \<Rightarrow> request" where
  "search_request hdrs term latitude longitude radius_meters limit offset' =
     \<lparr>url = ''https://api.yelp.com/v3/businesses/search'',
      headers = hdrs,
      params =
        [(''term'', JStr term),
         (''latitude'', JFloat latitude),
         (''longitude'', JFloat longitude),
         (''radius'', JInt radius_meters),
         (''categories'', JStr ''restaurants,bars''),
         (''limit'', JInt limit),
         (''offset'', JInt offset')]\<rparr>"

text \<open>One round of the \<^verbatim>\<open>while True\<close> loop, from the request to the end of the body.\<close>

definition search_iteration ::
  "service \<Rightarrow> (string \<times> string) list \<Rightarrow> string \<Rightarrow> pyfloat \<Rightarrow> pyfloat \<Rightarrow> int \<Rightarrow> int \<Rightarrow>
     loop_state \<Rightarrow> step" where
  "search_iteration service hdrs term latitude longitude radius_meters limit st =
     (let request = search_request hdrs term latitude longitude radius_meters limit (offset st);
          st1 = st\<lparr>sent := sent st @ [request]\<rparr>
      in case service (length (sent st)) request of
           Inl e \<Rightarrow> Raise e st1
         | Inr response \<Rightarrow>
             if status_code response = 200 then
               (case json_body response of
                  None \<Rightarrow> Raise JSONDecodeError st1
                | Some data \<Rightarrow>
                    (case dict_get data ''businesses'' (JList []) of
                       Inl e \<Rightarrow> Raise e st1
                     | Inr businesses \<Rightarrow>
                    (case dict_get data ''total'' (JInt 0) of
                       Inl e \<Rightarrow> Raise e st1
                     | Inr total' \<Rightarrow>
                         if \<not> truthy businesses then Break st1
                         else
                           (case py_iter businesses of
                              Inl e \<Rightarrow> Raise e st1
                            | Inr items \<Rightarrow>
                                let st2 = st1\<lparr>all_businesses := all_businesses st1 @ items,
                                             total_fetched := total_fetched st1 + int (length items)\<rparr>
                                in (case int_ge (total_fetched st2) total' of
                                      Inl e \<Rightarrow> Raise e st2
                                    | Inr reached \<Rightarrow>
                                        if reached \<or> 1000 \<le> total_fetched st2 then Break st2
                                        else Continue (st2\<lparr>offset := offset st2 + limit\<rparr>))))))
             else Break st1)"

text \<open>
  The loop and the \<^verbatim>\<open>return\<close> after it. The result is the list of requests issued
  and either the list returned or the exception raised; \<open>None\<close> stands for a loop that
  never ends.
\<close>

partial_function (option) search_loop ::
  "service \<Rightarrow> (string \<times> string) list \<Rightarrow> string \<Rightarrow> pyfloat \<Rightarrow> pyfloat \<Rightarrow> int \<Rightarrow> int \<Rightarrow>
     loop_state \<Rightarrow> (request list \<times> (error + json list)) option" where
  "search_loop service hdrs term latitude longitude radius_meters limit st =
     (case search_iteration service hdrs term latitude longitude radius_meters limit st of
        Continue st' \<Rightarrow> search_loop service hdrs term latitude longitude radius_meters limit st'
      | Break st' \<Rightarrow> Some (sent st', Inr (all_businesses st'))
      | Raise e st' \<Rightarrow> Some (sent st', Inl e))"

declare search_loop.simps [code]

text \<open>
  The body of \<^verbatim>\<open>search_businesses\<close>, lines 21 to 76: the conversion of the radius, the
  headers, which read the name \<^verbatim>\<open>api_key\<close> (a \<^verbatim>\<open>NameError\<close> when it is unbound),
  the initial values of the loop variables, the loop and the \<^verbatim>\<open>return\<close>.
\<close>

definition search_businesses_body ::
  "service \<Rightarrow> string option \<Rightarrow> pyfloat \<Rightarrow> pyfloat \<Rightarrow> int \<Rightarrow> string \<Rightarrow> int \<Rightarrow>
     (request list \<times> (error + json list)) option" where
  "search_businesses_body service api_key latitude longitude radius_miles term limit =
     (case miles_to_meters radius_miles of
        Inl e \<Rightarrow> Some ([], Inl e)
      | Inr radius_meters \<Rightarrow>
          (case api_key of
             None \<Rightarrow> Some ([], Inl NameError)
           | Some key \<Rightarrow>
               search_loop service [(''Authorization'', ''Bearer '' @ key)]
                 term latitude longitude radius_meters limit
                 \<lparr>all_businesses = [], offset = 0, total_fetched = 0, sent = []\<rparr>))"

text \<open>
  The function as the source has it, applied to the arguments that \<^verbatim>\<open>main\<close> passes:
  the definition of line 6 is a \<^verbatim>\<open>SyntaxError\<close>, so that no call enters the body and
  no request is made.
\<close>

definition search_businesses ::
  "service \<Rightarrow> string \<Rightarrow> pyfloat \<Rightarrow> pyfloat \<Rightarrow> int \<Rightarrow> string \<Rightarrow> int \<Rightarrow>
     (request list \<times> (error + json list)) option" where
  "search_businesses service key latitude longitude radius_miles term limit =
     Some ([], Inl SyntaxError)"

section \<open>The Writer\<close>

text \<open>
  Modelled from the spec: \<^verbatim>\<open>json.dump\<close> is code of the library, not of the repository.
  The specification has the Writer serialize the records "as a pretty-printed JSON
  array (4-space indentation)"; the encoder below is \<^verbatim>\<open>json.dump(data, f, indent=4)\<close>
  with the defaults of the library, as its documentation describes them. A string is
  written between double quotes with \<^verbatim>\<open>ensure_ascii\<close>: the quote, the backslash and the
  control characters of \<^verbatim>\<open>\n \r \t \b \f\<close> as two-character escapes, every other
  character outside the range from the space to the tilde as \<^verbatim>\<open>\u00XX\<close>. An integer is
  written with its decimal digits. A float is written by \<^verbatim>\<open>float.__repr__\<close> when it is
  finite (that function is a parameter, \<open>float_repr\<close>) and, \<^verbatim>\<open>allow_nan\<close> being true by
  default, as \<^verbatim>\<open>NaN\<close>, \<^verbatim>\<open>Infinity\<close> or \<^verbatim>\<open>-Infinity\<close> otherwise. An empty list or
  dictionary is \<^verbatim>\<open>[]\<close> or \<^verbatim>\<open>{}\<close>; the items of any other start each on a line of
  their own, indented by four spaces for each level, separated by a comma, a key and
  its value by a colon and a space. The items of a dictionary have distinct keys.
\<close>

definition hex_digit :: "nat \<Rightarrow> char" where
  "hex_digit n = ''0123456789abcdef'' ! (n mod 16)"

fun encode_char :: "char \<Rightarrow> string" where
  "encode_char c =
     (if c = CHR 0x22 then [CHR 0x5C, CHR 0x22]
      else if c = CHR 0x5C then [CHR 0x5C, CHR 0x5C]
      else if c = CHR 0x0A then [CHR 0x5C, CHR ''n'']
      else if c = CHR 0x0D then [CHR 0x5C, CHR ''r'']
      else if c = CHR 0x09 then [CHR 0x5C, CHR ''t'']
      else if c = CHR 0x08 then [CHR 0x5C, CHR ''b'']
      else if c = CHR 0x0C then [CHR 0x5C, CHR ''f'']
      else if (of_char c :: nat) < 32 \<or> 126 < (of_char c :: nat)
      then [CHR 0x5C, CHR ''u'', CHR ''0'', CHR ''0'',
            hex_digit (of_char c div 16), hex_digit (of_char c)]
      else [c])"

definition encode_string :: "string \<Rightarrow> string" where
  "encode_string s = CHR 0x22 # concat (map encode_char s) @ [CHR 0x22]"

fun digits_of :: "nat \<Rightarrow> string" where
  "digits_of n =
     (if n < 10 then [hex_digit n] else digits_of (n div 10) @ [hex_digit (n mod 10)])"

definition int_repr :: "int \<Rightarrow> string" where
  "int_repr i = (if i < 0 then CHR ''-'' # digits_of (nat (- i)) else digits_of (nat i))"

fun float_str :: "(int \<Rightarrow> int \<Rightarrow> string) \<Rightarrow> pyfloat \<Rightarrow> string" where
  "float_str float_repr NaN = ''NaN''"
| "float_str float_repr (Infinite negative) = (if negative then ''-Infinity'' else ''Infinity'')"
| "float_str float_repr (Finite m e) = float_repr m e"

definition newline_indent :: "nat \<Rightarrow> string" where
  "newline_indent level = CHR 0x0A # replicate (4 * level) CHR '' ''"

fun encode :: "(int \<Rightarrow> int \<Rightarrow> string) \<Rightarrow> nat \<Rightarrow> json \<Rightarrow> string"
  and encode_items :: "(int \<Rightarrow> int \<Rightarrow> string) \<Rightarrow> nat \<Rightarrow> json list \<Rightarrow> string"
  and encode_members :: "(int \<Rightarrow> int \<Rightarrow> string) \<Rightarrow> nat \<Rightarrow> (string \<times> json) list \<Rightarrow> string"
where
  "encode fr level JNull = ''null''"
| "encode fr level (JBool b) = (if b then ''true'' else ''false'')"
| "encode fr level (JInt i) = int_repr i"
| "encode fr level (JFloat x) = float_str fr x"
| "encode fr level (JStr s) = encode_string s"
| "encode fr level (JList []) = ''[]''"
| "encode fr level (JList (v # vs)) =
     ''['' @ newline_indent (level + 1) @ encode fr (level + 1) v @
     encode_items fr (level + 1) vs @ newline_indent level @ '']''"
| "encode fr level (JObj []) = ''{}''"
| "encode fr level (JObj ((k, v) # kvs)) =
     ''{'' @ newline_indent (level + 1) @ encode_string k @ '': '' @ encode fr (level + 1) v @
     encode_members fr (level + 1) kvs @ newline_indent level @ ''}''"
| "encode_items fr level [] = []"
| "encode_items fr level (v # vs) =
     '','' @ newline_indent level @ encode fr level v @ encode_items fr level vs"
| "encode_members fr level [] = []"
| "encode_members fr level ((k, v) # kvs) =
     '','' @ newline_indent level @ encode_string k @ '': '' @ encode fr level v @
     encode_members fr level kvs"

text \<open>
  Modelled from the spec: the file system is a parameter, the names of the files with
  their contents and the names that \<^verbatim>\<open>open(filename, "w")\<close> refuses with an
  \<^verbatim>\<open>OSError\<close>. The timestamp is a parameter too: the string that
  \<^verbatim>\<open>datetime.now().strftime("%Y%m%d_%H%M%S")\<close> returns.
\<close>

record file_system =
  files :: "string \<Rightarrow> string option"
  refuses :: "string \<Rightarrow> bool"

text \<open>
  \<^verbatim>\<open>save_to_json\<close>: the file is opened for writing, which replaces what it held, the
  text of the records is written to it, and the name of the file is returned.
\<close>

definition save_to_json ::
  "(int \<Rightarrow> int \<Rightarrow> string) \<Rightarrow> string \<Rightarrow> file_system \<Rightarrow> json list \<Rightarrow> string option \<Rightarrow>
     error + string \<times> file_system" where
  "save_to_json float_repr timestamp fs data filename =
     (let filename' =
            (case filename of
               None \<Rightarrow> ''happy_hour_businesses_'' @ timestamp @ ''.json''
             | Some name \<Rightarrow> name)
      in if refuses fs filename' then Inl OSError
         else Inr (filename',
                   fs\<lparr>files := (files fs)(filename' := Some (encode float_repr 0 (JList data)))\<rparr>))"

text \<open>The content of the file that the Writer reports to have written.\<close>

definition written :: "error + string \<times> file_system \<Rightarrow> string option" where
  "written result = (case result of Inl e \<Rightarrow> None | Inr (name, fs) \<Rightarrow> files fs name)"

section \<open>JSON texts\<close>

text \<open>
  Modelled from the spec: "valid JSON" is the grammar of RFC 8259, the one
  \<^verbatim>\<open>json.load\<close> follows when non-finite numbers are not admitted. A text is a value
  between optional white space; a value is a string, a number (an optional minus
  sign, an integer part without a leading zero, an optional fraction, an optional
  exponent), one of \<^verbatim>\<open>true\<close>, \<^verbatim>\<open>false\<close>, \<^verbatim>\<open>null\<close>, an array or an object. The
  scanners return what follows the part they accept; the fuel bounds the depth and
  the number of items, and the length of the text is enough of it.
\<close>

datatype scan = Rest string | Invalid | Exhausted

definition is_ws :: "char \<Rightarrow> bool" where
  "is_ws c = (c = CHR '' '' \<or> c = CHR 0x09 \<or> c = CHR 0x0A \<or> c = CHR 0x0D)"

definition skip_ws :: "string \<Rightarrow> string" where
  "skip_ws s = dropWhile is_ws s"

definition is_digit :: "char \<Rightarrow> bool" where
  "is_digit c = (c \<in> set ''0123456789'')"

definition is_hex :: "char \<Rightarrow> bool" where
  "is_hex c = (c \<in> set ''0123456789abcdefABCDEF'')"

fun scan_literal :: "string \<Rightarrow> string \<Rightarrow> scan" where
  "scan_literal [] s = Rest s"
| "scan_literal (c # cs) [] = Invalid"
| "scan_literal (c # cs) (d # ds) = (if c = d then scan_literal cs ds else Invalid)"

fun scan_chars :: "string \<Rightarrow> scan" where
  "scan_chars [] = Invalid"
| "scan_chars (c # cs) =
     (if c = CHR 0x22 then Rest cs
      else if c = CHR 0x5C then
        (case cs of
           [] \<Rightarrow> Invalid
         | e # r \<Rightarrow>
             if e = CHR 0x22 \<or> e = CHR 0x5C \<or> e \<in> set ''/bfnrt'' then scan_chars r
             else if e = CHR ''u'' then
               (case r of
                  h1 # h2 # h3 # h4 # r' \<Rightarrow>
                    if is_hex h1 \<and> is_hex h2 \<and> is_hex h3 \<and> is_hex h4 then scan_chars r'
                    else Invalid
                | _ \<Rightarrow> Invalid)
             else Invalid)
      else if (of_char c :: nat) < 32 then Invalid
      else scan_chars cs)"

definition scan_digits :: "string \<Rightarrow> scan" where
  "scan_digits s =
     (case s of
        [] \<Rightarrow> Invalid
      | c # r \<Rightarrow> if is_digit c then Rest (dropWhile is_digit r) else Invalid)"

definition scan_exponent :: "string \<Rightarrow> scan" where
  "scan_exponent s =
     (case s of
        [] \<Rightarrow> Rest s
      | c # r \<Rightarrow>
          if c = CHR ''e'' \<or> c = CHR ''E'' then
            (case r of
               [] \<Rightarrow> Invalid
             | g # r' \<Rightarrow> if g = CHR ''+'' \<or> g = CHR ''-'' then scan_digits r' else scan_digits r)
          else Rest s)"

definition scan_fraction :: "string \<Rightarrow> scan" where
  "scan_fraction s =
     (case s of
        [] \<Rightarrow> Rest s
      | c # r \<Rightarrow>
          if c = CHR ''.'' then
            (case scan_digits r of Rest r' \<Rightarrow> scan_exponent r' | other \<Rightarrow> other)
          else scan_exponent s)"

definition scan_number :: "string \<Rightarrow> scan" where
  "scan_number s =
     (let s' = (case s of [] \<Rightarrow> s | c # r \<Rightarrow> if c = CHR ''-'' then r else s)
      in case s' of
           [] \<Rightarrow> Invalid
         | c # r \<Rightarrow>
             if c = CHR ''0'' then scan_fraction r
             else if is_digit c then scan_fraction (dropWhile is_digit r)
             else Invalid)"

fun scan_value :: "nat \<Rightarrow> string \<Rightarrow> scan"
  and scan_elements :: "nat \<Rightarrow> string \<Rightarrow> scan"
  and scan_members :: "nat \<Rightarrow> string \<Rightarrow> scan"
where
  "scan_value 0 s = Exhausted"
| "scan_value (Suc n) s =
     (case s of
        [] \<Rightarrow> Invalid
      | c # r \<Rightarrow>
          if c = CHR 0x22 then scan_chars r
          else if c = CHR ''['' then
            (case skip_ws r of
               [] \<Rightarrow> Invalid
             | d # r' \<Rightarrow> if d = CHR '']'' then Rest r' else scan_elements n (d # r'))
          else if c = CHR ''{'' then
            (case skip_ws r of
               [] \<Rightarrow> Invalid
             | d # r' \<Rightarrow> if d = CHR ''}'' then Rest r' else scan_members n (d # r'))
          else if c = CHR ''t'' then scan_literal ''true'' s
          else if c = CHR ''f'' then scan_literal ''false'' s
          else if c = CHR ''n'' then scan_literal ''null'' s
          else scan_number s)"
| "scan_elements 0 s = Exhausted"
| "scan_elements (Suc n) s =
     (case scan_value n s of
        Rest r \<Rightarrow>
          (case skip_ws r of
             [] \<Rightarrow> Invalid
           | d # r' \<Rightarrow>
               if d = CHR '','' then scan_elements n (skip_ws r')
               else if d = CHR '']'' then Rest r'
               else Invalid)
      | other \<Rightarrow> other)"
| "scan_members 0 s = Exhausted"
| "scan_members (Suc n) s =
     (case s of
        [] \<Rightarrow> Invalid
      | q # r0 \<Rightarrow>
          if q = CHR 0x22 then
            (case scan_chars r0 of
               Rest r1 \<Rightarrow>
                 (case skip_ws r1 of
                    [] \<Rightarrow> Invalid
                  | c # r2 \<Rightarrow>
                      if c = CHR '':'' then
                        (case scan_value n (skip_ws r2) of
                           Rest r3 \<Rightarrow>
                             (case skip_ws r3 of
                                [] \<Rightarrow> Invalid
                              | d # r4 \<Rightarrow>
                                  if d = CHR '','' then scan_members n (skip_ws r4)
                                  else if d = CHR ''}'' then Rest r4
                                  else Invalid)
                         | other \<Rightarrow> other)
                      else Invalid)
             | other \<Rightarrow> other)
          else Invalid)"

datatype verdict = Valid | NotJSON | Undecided

definition json_text :: "string \<Rightarrow> verdict" where
  "json_text s =
     (case scan_value (Suc (length s)) (skip_ws s) of
        Rest r \<Rightarrow> if skip_ws r = [] then Valid else NotJSON
      | Invalid \<Rightarrow> NotJSON
      | Exhausted \<Rightarrow> Undecided)"

section \<open>Service answers and records used in the statements\<close>

text \<open>A successful answer: status 200 with a page of records and the reported total.\<close>

definition page :: "json list \<Rightarrow> int \<Rightarrow> error + response" where
  "page businesses total' =
     Inr \<lparr>status_code = 200,
          json_body = Some (JObj [(''businesses'', JList businesses), (''total'', JInt total')])\<rparr>"

text \<open>
  For a service that answers the \<open>k\<close>-th request with the page \<open>pages k\<close> and the total
  \<open>totals k\<close>: the number of records received up to and including page \<open>k\<close>, and the
  three termination conditions after page \<open>k\<close>.
\<close>

definition fetched :: "(nat \<Rightarrow> json list) \<Rightarrow> nat \<Rightarrow> int" where
  "fetched pages k = int (length (concat (map pages [0..<Suc k])))"

definition stops :: "(nat \<Rightarrow> json list) \<Rightarrow> (nat \<Rightarrow> int) \<Rightarrow> nat \<Rightarrow> bool" where
  "stops pages totals k =
     (pages k = [] \<or> totals k \<le> fetched pages k \<or> 1000 \<le> fetched pages k)"

text \<open>Two raw records.\<close>

definition sample_record :: json where
  "sample_record = JObj
     [(''name'', JStr ''The Tap''),
      (''rating'', JFloat (Finite 9 (- 1))),
      (''location'', JObj
         [(''display_address'', JList [JStr ''123 Main St'', JStr ''Springfield'']),
          (''city'', JStr ''Springfield'')]),
      (''categories'', JList [JObj [(''alias'', JStr ''bars''), (''title'', JStr ''Bars'')]])]"

definition priced_record :: json where
  "priced_record = JObj [(''name'', JStr ''Chez''), (''price'', JStr ''$$'')]"

text \<open>
  The state of the loop before request \<open>k\<close>, when the earlier requests were answered with
  the pages \<open>pages 0\<close>, ..., \<open>pages (k - 1)\<close> and none of them ended the loop.
\<close>

definition state_after ::
  "(nat \<Rightarrow> json list) \<Rightarrow> (string \<times> string) list \<Rightarrow> string \<Rightarrow> pyfloat \<Rightarrow> pyfloat \<Rightarrow> int \<Rightarrow> int \<Rightarrow>
     nat \<Rightarrow> loop_state" where
  "state_after pages hdrs term latitude longitude radius_meters limit k =
     \<lparr>all_businesses = concat (map pages [0..<k]),
      offset = int k * limit,
      total_fetched = int (length (concat (map pages [0..<k]))),
      sent = map (\<lambda>i. search_request hdrs term latitude longitude radius_meters limit (int i * limit))
               [0..<k]\<rparr>"


definition three_records :: service where
  "three_records k request =
     (if k = 0 then page [JStr ''a'', JStr ''b''] 3
      else if k = 1 then page [JStr ''c''] 3
      else Inl RequestException)"


definition failing_after :: "nat \<Rightarrow> int \<Rightarrow> service" where
  "failing_after n status k request =
     (if k < n then page [JInt (int k)] 10
      else Inr \<lparr>status_code = status, json_body = None\<rparr>)"

definition answer_with :: "int \<Rightarrow> json option \<Rightarrow> service" where
  "answer_with status body k request = Inr \<lparr>status_code = status, json_body = body\<rparr>"

definition one_more :: "json option" where
  "one_more = Some (JObj [(''businesses'', JList [JStr ''y'']), (''total'', JInt 2)])"

text \<open>A state of the loop at its second round, with one record fetched.\<close>

definition second_round :: loop_state where
  "second_round =
     \<lparr>all_businesses = [JStr ''x''], offset = 50, total_fetched = 1,
      sent = [search_request [] ''bar'' (Finite 1 0) (Finite 1 0) 40233 50 0]\<rparr>"

text \<open>
  The specification's wording for the radius: the truncation toward zero of
  \<open>radius_miles * 1609.34\<close>, the decimal number \<open>1609.34\<close> being \<open>160934 / 100\<close>.
\<close>

definition exact_meters :: "int \<Rightarrow> int" where
  "exact_meters radius_miles = sgn radius_miles * (\<bar>radius_miles\<bar> * 160934 div 100)"

text \<open>
  A raw record whose rating is infinite, as \<^verbatim>\<open>response.json()\<close> delivers it for the
  JSON number \<^verbatim>\<open>1e999\<close>; the record extracted from it; the text of
  \<^verbatim>\<open>json.dump\<close> for the list of that one record; a file system that holds no file and
  refuses no name.
\<close>

definition infinite_rating :: json where
  "infinite_rating = JObj [(''name'', JStr ''The Tap''), (''rating'', JFloat (Infinite False))]"

definition infinite_info :: json where
  "infinite_info = JObj
     [(''name'', JStr ''The Tap''),
      (''rating'', JFloat (Infinite False)),
      (''review_count'', JNull),
      (''address'', JStr []),
      (''city'', JNull),
      (''zip_code'', JNull),
      (''phone'', JNull),
      (''website'', JNull),
      (''coordinates'', JNull),
      (''categories'', JList []),
      (''price'', JStr ''N/A'')]"

definition quoted :: "string \<Rightarrow> string" where
  "quoted s = CHR 0x22 # s @ [CHR 0x22]"

definition infinity_text :: string where
  "infinity_text = concat
     [''[\<newline>'',
      ''    {\<newline>'',
      ''        '' @ quoted ''name'' @ '': '' @ quoted ''The Tap'' @ '',\<newline>'',
      ''        '' @ quoted ''rating'' @ '': Infinity,\<newline>'',
      ''        '' @ quoted ''review_count'' @ '': null,\<newline>'',
      ''        '' @ quoted ''address'' @ '': '' @ quoted [] @ '',\<newline>'',
      ''        '' @ quoted ''city'' @ '': null,\<newline>'',
      ''        '' @ quoted ''zip_code'' @ '': null,\<newline>'',
      ''        '' @ quoted ''phone'' @ '': null,\<newline>'',
      ''        '' @ quoted ''website'' @ '': null,\<newline>'',
      ''        '' @ quoted ''coordinates'' @ '': null,\<newline>'',
      ''        '' @ quoted ''categories'' @ '': [],\<newline>'',
      ''        '' @ quoted ''price'' @ '': '' @ quoted ''N/A'' @ ''\<newline>'',
      ''    }\<newline>'',
      '']'']"

definition any_file_system :: file_system where
  "any_file_system = \<lparr>files = (\<lambda>name. None), refuses = (\<lambda>name. False)\<rparr>"

section \<open>Computations that may raise\<close>

lemma bind_err_simps [simp]:
  "bind_err (Inl e) f = Inl e"
  "bind_err (Inr x) f = f x"
  by (simp_all add: bind_err_def)

lemma bind_err_eq_Inr: "bind_err m f = Inr y \<longleftrightarrow> (\<exists>x. m = Inr x \<and> f x = Inr y)"
  by (cases m) simp_all

lemma map_err_Inr:
  "map_err f xs = Inr ys \<Longrightarrow> length ys = length xs \<and> (\<forall>i<length xs. f (xs ! i) = Inr (ys ! i))"
proof (induction xs arbitrary: ys)
  case Nil
  then show ?case by simp
next
  case (Cons x xs)
  from Cons.prems obtain y ys' where y: "f x = Inr y" and ys': "map_err f xs = Inr ys'"
    and eq: "ys = y # ys'"
    by (auto simp: bind_err_eq_Inr)
  from Cons.IH [OF ys'] have len: "length ys' = length xs"
    and nth: "\<And>i. i < length xs \<Longrightarrow> f (xs ! i) = Inr (ys' ! i)" by simp_all
  show ?case
  proof (intro conjI allI impI)
    show "length ys = length (x # xs)" by (simp add: eq len)
  next
    fix i assume "i < length (x # xs)"
    then show "f ((x # xs) ! i) = Inr (ys ! i)"
      by (cases i) (simp_all add: eq y nth)
  qed
qed

lemma map_err_total:
  "\<forall>x\<in>set xs. \<exists>y. f x = Inr y \<Longrightarrow> \<exists>ys. map_err f xs = Inr ys"
  by (induction xs) auto

lemma extract_loop_map_err:
  "extract_loop bs acc = bind_err (map_err extract_info bs) (\<lambda>infos. Inr (acc @ infos))"
proof (induction bs arbitrary: acc)
  case Nil
  show ?case by simp
next
  case (Cons b bs)
  show ?case
  proof (cases "extract_info b")
    case (Inl e)
    then show ?thesis by simp
  next
    case (Inr info)
    then show ?thesis
      by (cases "map_err extract_info bs") (simp_all add: Cons.IH)
  qed
qed

lemma extract_business_info_map_err:
  "extract_business_info bs = map_err extract_info bs"
  by (cases "map_err extract_info bs") (simp_all add: extract_business_info_def extract_loop_map_err)

lemma strings_of_str: "list_all is_str ls \<Longrightarrow> \<exists>ss. strings_of ls = Inr ss"
proof (induction ls)
  case Nil
  show ?case by simp
next
  case (Cons v vs)
  then show ?case by (cases v) auto
qed

lemma strings_of_map_JStr [simp]: "strings_of (map JStr ss) = Inr ss"
  by (induction ss) simp_all

lemma titles_total:
  "list_all is_dict cs \<Longrightarrow> \<exists>ts. map_err (\<lambda>category. dict_get category ''title'' JNull) cs = Inr ts"
proof (rule map_err_total, rule ballI)
  fix c assume "list_all is_dict cs" "c \<in> set cs"
  then have "is_dict c" by (simp add: list_all_iff)
  then show "\<exists>y. dict_get c ''title'' JNull = Inr y" by (cases c) simp_all
qed

section \<open>Properties of the Extractor\<close>

lemma str_join_strs: "str_join sep (JList (map JStr ss)) = Inr (JStr (join sep ss))"
  by (simp add: str_join_def)

lemma str_join_list: "list_all is_str ls \<Longrightarrow> \<exists>a. str_join sep (JList ls) = Inr a"
  using strings_of_str [of ls] by (auto simp: str_join_def)

lemma address_total:
  assumes "location_ok l"
  shows "\<exists>a. bind_err (dict_get l ''display_address'' (JList [])) (str_join '', '') = Inr a"
proof -
  from assms obtain loc where l: "l = JObj loc" by (cases l) simp_all
  show ?thesis
  proof (cases "map_of loc ''display_address''")
    case None
    then show ?thesis by (simp add: l str_join_def)
  next
    case (Some d)
    with assms l obtain ls where d: "d = JList ls" and "list_all is_str ls"
      by (cases d) simp_all
    with str_join_list [of ls "'', ''"] Some show ?thesis by (auto simp: l)
  qed
qed

lemma location_field_total:
  assumes "location_ok l"
  shows "\<exists>v. dict_get l k d = Inr v"
  using assms by (cases l) simp_all

lemma categories_total:
  assumes "case map_of kvs ''categories'' of None \<Rightarrow> True | Some (JList cs) \<Rightarrow> list_all is_dict cs | Some _ \<Rightarrow> False"
  shows "\<exists>c. list_comp (\<lambda>category. dict_get category ''title'' JNull)
           (case map_of kvs ''categories'' of None \<Rightarrow> JList [] | Some v \<Rightarrow> v) = Inr c"
proof (cases "map_of kvs ''categories''")
  case None
  then show ?thesis by (simp add: list_comp_def)
next
  case (Some c)
  with assms obtain cs where c: "c = JList cs" and "list_all is_dict cs"
    by (cases c) simp_all
  with titles_total [of cs] Some show ?thesis by (auto simp: list_comp_def)
qed

lemma extract_info_shape:
  assumes ok: "raw_record_ok (JObj kvs)"
  shows "\<exists>address city zip_code categories.
     bind_err (dict_get (case map_of kvs ''location'' of None \<Rightarrow> JObj [] | Some l \<Rightarrow> l)
        ''display_address'' (JList [])) (str_join '', '') = Inr address \<and>
     extract_info (JObj kvs) = Inr (JObj
       [(''name'', case map_of kvs ''name'' of None \<Rightarrow> JNull | Some v \<Rightarrow> v),
        (''rating'', case map_of kvs ''rating'' of None \<Rightarrow> JNull | Some v \<Rightarrow> v),
        (''review_count'', case map_of kvs ''review_count'' of None \<Rightarrow> JNull | Some v \<Rightarrow> v),
        (''address'', address),
        (''city'', city),
        (''zip_code'', zip_code),
        (''phone'', case map_of kvs ''phone'' of None \<Rightarrow> JNull | Some v \<Rightarrow> v),
        (''website'', case map_of kvs ''url'' of None \<Rightarrow> JNull | Some v \<Rightarrow> v),
        (''coordinates'', case map_of kvs ''coordinates'' of None \<Rightarrow> JNull | Some v \<Rightarrow> v),
        (''categories'', categories),
        (''price'', case map_of kvs ''price'' of None \<Rightarrow> JStr ''N/A'' | Some v \<Rightarrow> v)])"
proof -
  let ?l = "case map_of kvs ''location'' of None \<Rightarrow> JObj [] | Some l \<Rightarrow> l"
  from ok have l: "location_ok ?l" by (simp split: option.splits)
  from address_total [OF l] obtain a where
    a: "bind_err (dict_get ?l ''display_address'' (JList [])) (str_join '', '') = Inr a" ..
  from location_field_total [OF l] obtain c where c: "dict_get ?l ''city'' JNull = Inr c" 
    by blast
  from location_field_total [OF l] obtain z where z: "dict_get ?l ''zip_code'' JNull = Inr z"
    by blast
  from ok have "case map_of kvs ''categories'' of None \<Rightarrow> True
      | Some (JList cs) \<Rightarrow> list_all is_dict cs | Some _ \<Rightarrow> False" by simp
  from categories_total [OF this] obtain cs where
    cs: "list_comp (\<lambda>category. dict_get category ''title'' JNull)
           (case map_of kvs ''categories'' of None \<Rightarrow> JList [] | Some v \<Rightarrow> v) = Inr cs" ..
  show ?thesis
    by (rule exI [of _ a], rule exI [of _ c], rule exI [of _ z], rule exI [of _ cs])
       (simp add: extract_info_def a c z cs)
qed

text \<open>
  Claim C4. For every list of raw records, \<^verbatim>\<open>extract_business_info\<close> returns a list,
  and whenever it returns a list, that list is as long as the input and its \<open>i\<close>-th
  element is \<open>extract_info\<close> of the \<open>i\<close>-th input record alone: the function is a
  length-preserving and order-preserving map.
\<close>

theorem extract_business_info_preserves:
  "(list_all raw_record_ok businesses \<longrightarrow>
      (\<exists>infos. extract_business_info businesses = Inr infos)) \<and>
   (\<forall>infos. extract_business_info businesses = Inr infos \<longrightarrow>
      length infos = length businesses \<and>
      (\<forall>i<length businesses. extract_info (businesses ! i) = Inr (infos ! i)))"
proof (intro conjI impI allI)
  assume ok: "list_all raw_record_ok businesses"
  have "\<forall>b\<in>set businesses. \<exists>info. extract_info b = Inr info"
  proof
    fix b assume "b \<in> set businesses"
    with ok have b: "raw_record_ok b" by (simp add: list_all_iff)
    then obtain kvs where "b = JObj kvs" by (cases b) simp_all
    with extract_info_shape [of kvs] b show "\<exists>info. extract_info b = Inr info" by auto
  qed
  then show "\<exists>infos. extract_business_info businesses = Inr infos"
    by (simp only: extract_business_info_map_err map_err_total)
next
  fix infos assume "extract_business_info businesses = Inr infos"
  then have "map_err extract_info businesses = Inr infos"
    by (simp only: extract_business_info_map_err)
  from map_err_Inr [OF this]
  show "length infos = length businesses"
    and "\<And>i. i < length businesses \<Longrightarrow> extract_info (businesses ! i) = Inr (infos ! i)"
    by simp_all
qed

theorem extract_business_info_preserves_witness:
  "list_all raw_record_ok [sample_record, priced_record] \<and>
   (\<exists>infos. extract_business_info [sample_record, priced_record] = Inr infos \<and>
      length infos = 2 \<and> 
      extract_info sample_record = Inr (infos ! 0) \<and>
      extract_info priced_record = Inr (infos ! 1))"
proof -
  have ok: "list_all raw_record_ok [sample_record, priced_record]"
    by (simp add: sample_record_def priced_record_def)
  note inst = extract_business_info_preserves [of "[sample_record, priced_record]"]
  from inst ok obtain infos
    where infos: "extract_business_info [sample_record, priced_record] = Inr infos"
    by blast
  with inst have len: "length infos = length [sample_record, priced_record]"
    and nth: "\<forall>i<length [sample_record, priced_record].
           extract_info ([sample_record, priced_record] ! i) = Inr (infos ! i)"
    by blast+
  from len have "length infos = 2" by simp
  moreover have "extract_info sample_record = Inr (infos ! 0)"
    using nth [rule_format, of 0] by simp
  moreover have "extract_info priced_record = Inr (infos ! 1)"
    using nth [rule_format, of 1] by simp
  ultimately have "length infos = 2 \<and> extract_info sample_record = Inr (infos ! 0) \<and>
      extract_info priced_record = Inr (infos ! 1)" by blast
  with ok infos show ?thesis by blast
qed

text \<open>
  Claim C5. For every raw record, the \<^verbatim>\<open>address\<close> of the extracted record is the join
  with \<^verbatim>\<open>", "\<close> of the strings of \<^verbatim>\<open>location.display_address\<close>, and the empty string
  when \<^verbatim>\<open>location\<close> or \<^verbatim>\<open>display_address\<close> is absent or the list is empty.
\<close>

theorem extract_info_address:
  assumes "raw_record_ok (JObj kvs)"
  shows "\<exists>info. extract_info (JObj kvs) = Inr (JObj info) \<and>
     (map_of kvs ''location'' = None \<longrightarrow> map_of info ''address'' = Some (JStr '''')) \<and>
     (\<forall>loc. map_of kvs ''location'' = Some (JObj loc) \<longrightarrow>
        (map_of loc ''display_address'' = None \<longrightarrow>
           map_of info ''address'' = Some (JStr '''')) \<and>
        (\<forall>ss. map_of loc ''display_address'' = Some (JList (map JStr ss)) \<longrightarrow>
           map_of info ''address'' = Some (JStr (join '', '' ss))))"
proof -
  let ?l = "case map_of kvs ''location'' of None \<Rightarrow> JObj [] | Some l \<Rightarrow> l"
  from extract_info_shape [OF assms] obtain address info
    where a: "bind_err (dict_get ?l ''display_address'' (JList [])) (str_join '', '') = Inr address"
      and i: "extract_info (JObj kvs) = Inr (JObj info)"
      and m: "map_of info ''address'' = Some address"
    by fastforce
  have "map_of kvs ''location'' = None \<longrightarrow> address = JStr ''''"
    using a by (auto simp: str_join_def)
  moreover have "map_of kvs ''location'' = Some (JObj loc) \<longrightarrow>
        (map_of loc ''display_address'' = None \<longrightarrow> address = JStr '''') \<and>
        (\<forall>ss. map_of loc ''display_address'' = Some (JList (map JStr ss)) \<longrightarrow>
           address = JStr (join '', '' ss))" for loc
    using a by (auto simp: str_join_def)
  ultimately show ?thesis
    by (intro exI [of _ info]) (simp add: i m)
qed

theorem extract_info_address_witness:
  "raw_record_ok sample_record \<and>
   (\<exists>info. extract_info sample_record = Inr (JObj info) \<and>
      map_of info ''address'' = Some (JStr ''123 Main St, Springfield''))"
proof -
  let ?loc = "[(''display_address'', JList [JStr ''123 Main St'', JStr ''Springfield'']),
          (''city'', JStr ''Springfield'')]"
  let ?kvs = "[(''name'', JStr ''The Tap''),
      (''rating'', JFloat (Finite 9 (- 1))),
      (''location'', JObj ?loc),
      (''categories'', JList [JObj [(''alias'', JStr ''bars''), (''title'', JStr ''Bars'')]])]"
  have ok: "raw_record_ok (JObj ?kvs)" by simp
  from extract_info_address [OF ok] obtain info
    where i: "extract_info (JObj ?kvs) = Inr (JObj info)"
      and a: "\<forall>loc. map_of ?kvs ''location'' = Some (JObj loc) \<longrightarrow>
        (map_of loc ''display_address'' = None \<longrightarrow>
           map_of info ''address'' = Some (JStr '''')) \<and>
        (\<forall>ss. map_of loc ''display_address'' = Some (JList (map JStr ss)) \<longrightarrow>
           map_of info ''address'' = Some (JStr (join '', '' ss)))"
    by blast
  have "map_of ?kvs ''location'' = Some (JObj ?loc)" by simp
  with a have "\<forall>ss. map_of ?loc ''display_address'' = Some (JList (map JStr ss)) \<longrightarrow>
           map_of info ''address'' = Some (JStr (join '', '' ss))" by blast
  from this [rule_format, of "[''123 Main St'', ''Springfield'']"]
  have "map_of info ''address'' = Some (JStr ''123 Main St, Springfield'')" by simp
  with ok i show ?thesis unfolding sample_record_def by blast
qed

text \<open>
  Claim C6. For every raw record, the \<^verbatim>\<open>price\<close> of the extracted record is the string
  \<^verbatim>\<open>"N/A"\<close> when the record has no \<^verbatim>\<open>price\<close>, and the record's own value otherwise.
\<close>

theorem extract_info_price:
  assumes "raw_record_ok (JObj kvs)"
  shows "\<exists>info. extract_info (JObj kvs) = Inr (JObj info) \<and>
     map_of info ''price'' =
       Some (case map_of kvs ''price'' of None \<Rightarrow> JStr ''N/A'' | Some price \<Rightarrow> price)"
  using extract_info_shape [OF assms] by fastforce

theorem extract_info_price_witness:
  "raw_record_ok sample_record \<and> raw_record_ok priced_record \<and>
   (\<exists>info. extract_info sample_record = Inr (JObj info) \<and>
      map_of info ''price'' = Some (JStr ''N/A'')) \<and>
   (\<exists>info. extract_info priced_record = Inr (JObj info) \<and>
      map_of info ''price'' = Some (JStr ''$$''))"
proof -
  have ok1: "raw_record_ok sample_record" and ok2: "raw_record_ok priced_record"
    by (simp_all add: sample_record_def priced_record_def)
  show ?thesis
    using ok1 ok2 extract_info_price [OF ok1 [unfolded sample_record_def]]
      extract_info_price [OF ok2 [unfolded priced_record_def]]
    by (simp add: sample_record_def priced_record_def)
qed

section \<open>Properties of the Paginator\<close>

lemma dict_keys_eq_Nil [simp]: "dict_keys kvs = [] \<longleftrightarrow> kvs = []"
  by (simp add: dict_keys_def)

lemma py_iter_truthy:
  assumes "truthy v" and "py_iter v = Inr items"
  shows "items \<noteq> []"
  using assms by (cases v) auto

lemma search_iteration_sent:
  assumes "search_iteration service hdrs term latitude longitude radius_meters limit st = r"
    and "r = Continue st' \<or> r = Break st' \<or> r = Raise e st'"
  shows "sent st' = sent st @ [search_request hdrs term latitude longitude radius_meters limit (offset st)]"
  using assms
  by (auto simp: search_iteration_def Let_def split: sum.splits option.splits if_splits)

lemma search_iteration_Continue:
  assumes "search_iteration service hdrs term latitude longitude radius_meters limit st = Continue st'"
  shows "total_fetched st < total_fetched st' \<and> total_fetched st' < 1000"
  using assms
  by (auto simp: search_iteration_def Let_def split: sum.splits option.splits if_splits
      dest: py_iter_truthy)

lemma search_loop_returns:
  "\<exists>reqs out. search_loop service hdrs term latitude longitude radius_meters limit st = Some (reqs, out) \<and>
     int (length reqs) \<le> int (length (sent st)) + max 1 (1000 - total_fetched st)"
proof (induction "nat (1000 - total_fetched st)" arbitrary: st rule: less_induct)
  case less
  let ?it = "search_iteration service hdrs term latitude longitude radius_meters limit st"
  show ?case
  proof (cases ?it)
    case (Continue st')
    from search_iteration_Continue [OF Continue]
    have tf: "total_fetched st < total_fetched st'" "total_fetched st' < 1000" by simp_all
    from search_iteration_sent [OF Continue] have len: "length (sent st') = Suc (length (sent st))"
      by simp
    from tf have "nat (1000 - total_fetched st') < nat (1000 - total_fetched st)" by simp
    from less [OF this] obtain reqs out
      where r: "search_loop service hdrs term latitude longitude radius_meters limit st' = Some (reqs, out)"
        and b: "int (length reqs) \<le> int (length (sent st')) + max 1 (1000 - total_fetched st')"
      by blast
    have "search_loop service hdrs term latitude longitude radius_meters limit st = Some (reqs, out)"
      by (subst search_loop.simps) (simp add: Continue r)
    moreover from b len tf
    have "int (length reqs) \<le> int (length (sent st)) + max 1 (1000 - total_fetched st)"
      by simp
    ultimately show ?thesis by blast
  next
    case (Break st')
    from search_iteration_sent [OF Break] have len: "length (sent st') = Suc (length (sent st))"
      by simp
    have "search_loop service hdrs term latitude longitude radius_meters limit st =
        Some (sent st', Inr (all_businesses st'))"
      by (subst search_loop.simps) (simp add: Break)
    with len show ?thesis by simp
  next
    case (Raise e st')
    from search_iteration_sent [OF Raise] have len: "length (sent st') = Suc (length (sent st))"
      by simp
    have "search_loop service hdrs term latitude longitude radius_meters limit st =
        Some (sent st', Inl e)"
      by (subst search_loop.simps) (simp add: Raise)
    with len show ?thesis by simp
  qed
qed

text \<open>
  Claim C9. For every service, \<^verbatim>\<open>search_businesses\<close> returns or raises after at most
  1001 requests: so does the function as the source has it, so does its body under
  every binding of \<^verbatim>\<open>api_key\<close>, and so does the loop under all headers; a round that
  does not leave the loop strictly increases the number of records fetched and leaves
  it below 1000.
\<close>

theorem search_businesses_terminates:
  "(\<exists>reqs out. search_businesses service key latitude longitude radius_miles term limit =
       Some (reqs, out) \<and> length reqs \<le> 1001) \<and>
   (\<exists>reqs out. search_businesses_body service api_key latitude longitude radius_miles term limit =
       Some (reqs, out) \<and> length reqs \<le> 1001) \<and>
   (\<exists>reqs out. search_loop service hdrs term latitude longitude radius_meters limit
         \<lparr>all_businesses = [], offset = 0, total_fetched = 0, sent = []\<rparr> = Some (reqs, out) \<and>
       length reqs \<le> 1001) \<and>
   (\<forall>st'. search_iteration service hdrs term latitude longitude radius_meters limit st = Continue st' \<longrightarrow>
       total_fetched st < total_fetched st' \<and> total_fetched st' < 1000)"
proof (intro conjI allI impI)
  show "\<exists>reqs out. search_businesses service key latitude longitude radius_miles term limit =
       Some (reqs, out) \<and> length reqs \<le> 1001"
    by (simp add: search_businesses_def)
next
  have loop: "\<exists>reqs out. search_loop service h term latitude longitude rm limit
         \<lparr>all_businesses = [], offset = 0, total_fetched = 0, sent = []\<rparr> = Some (reqs, out) \<and>
       length reqs \<le> 1001" for h rm
  proof -
    let ?st = "\<lparr>all_businesses = [], offset = 0, total_fetched = 0, sent = []\<rparr>"
    from search_loop_returns [of service h "term" latitude longitude rm limit ?st]
    obtain reqs out where
      "search_loop service h term latitude longitude rm limit ?st = Some (reqs, out)"
      and "int (length reqs) \<le> 1000"
      by auto
    then show ?thesis by simp
  qed
  show "\<exists>reqs out. search_loop service hdrs term latitude longitude radius_meters limit
         \<lparr>all_businesses = [], offset = 0, total_fetched = 0, sent = []\<rparr> = Some (reqs, out) \<and>
       length reqs \<le> 1001"
    by (rule loop)
  show "\<exists>reqs out. search_businesses_body service api_key latitude longitude radius_miles term
       limit = Some (reqs, out) \<and> length reqs \<le> 1001"
  proof (cases "miles_to_meters radius_miles")
    case (Inl e)
    then show ?thesis by (simp add: search_businesses_body_def)
  next
    case (Inr rm)
    show ?thesis
    proof (cases api_key)
      case None
      then show ?thesis by (simp add: search_businesses_body_def Inr)
    next
      case (Some k)
      with loop [of "[(''Authorization'', ''Bearer '' @ k)]" rm] show ?thesis
        by (simp add: search_businesses_body_def Inr)
    qed
  qed
next
  fix st'
  assume "search_iteration service hdrs term latitude longitude radius_meters limit st = Continue st'"
  from search_iteration_Continue [OF this]
  show "total_fetched st < total_fetched st'" and "total_fetched st' < 1000" by simp_all
qed

theorem search_businesses_terminates_witness:
  "search_iteration (answer_with 200 (Some (JObj [(''businesses'', JList [JStr ''y'']),
        (''total'', JInt 5)]))) [] ''bar'' (Finite 1 0) (Finite 1 0) 40233 50 second_round =
     Continue \<lparr>all_businesses = [JStr ''x'', JStr ''y''], offset = 100, total_fetched = 2,
        sent = [search_request [] ''bar'' (Finite 1 0) (Finite 1 0) 40233 50 0,
                search_request [] ''bar'' (Finite 1 0) (Finite 1 0) 40233 50 50]\<rparr> \<and>
   total_fetched second_round < 2 \<and> (2::int) < 1000 \<and>
   (\<exists>reqs out. search_businesses_body (answer_with 200 (Some (JObj [(''businesses'', JList [JStr ''y'']),
        (''total'', JInt 5)]))) (Some ''KEY'') (Finite 1 0) (Finite 1 0) 25 ''bar'' 50 =
        Some (reqs, out) \<and>
      length reqs \<le> 1001)"
proof -
  let ?svc = "answer_with 200 (Some (JObj [(''businesses'', JList [JStr ''y'']),
        (''total'', JInt 5)]))"
  let ?st' = "\<lparr>all_businesses = [JStr ''x'', JStr ''y''], offset = 100, total_fetched = 2,
        sent = [search_request [] ''bar'' (Finite 1 0) (Finite 1 0) 40233 50 0,
                search_request [] ''bar'' (Finite 1 0) (Finite 1 0) 40233 50 50]\<rparr>"
  have it: "search_iteration ?svc [] ''bar'' (Finite 1 0) (Finite 1 0) 40233 50 second_round =
     Continue ?st'"
    by (simp add: search_iteration_def answer_with_def second_round_def Let_def)
  note t = search_businesses_terminates [of ?svc "''KEY''" "Finite 1 0" "Finite 1 0" 25 "''bar''" 50
      "Some ''KEY''" "[]" 40233 second_round]
  from t it have "total_fetched second_round < total_fetched ?st' \<and> total_fetched ?st' < 1000"
    by blast
  then have "total_fetched second_round < 2 \<and> (2::int) < 1000" by simp
  moreover from t have "\<exists>reqs out. search_businesses_body ?svc (Some ''KEY'') (Finite 1 0)
      (Finite 1 0) 25 ''bar'' 50 = Some (reqs, out) \<and> length reqs \<le> 1001" by blast
  ultimately show ?thesis using it by blast
qed

lemma state_after_0:
  "state_after pages hdrs term latitude longitude radius_meters limit 0 =
     \<lparr>all_businesses = [], offset = 0, total_fetched = 0, sent = []\<rparr>"
  by (simp add: state_after_def)

lemma iteration_page:
  assumes "service (length (sent st))
      (search_request hdrs term latitude longitude radius_meters limit (offset st)) = page bs t"
  shows "search_iteration service hdrs term latitude longitude radius_meters limit st =
     (let st1 = st\<lparr>sent := sent st @
                 [search_request hdrs term latitude longitude radius_meters limit (offset st)]\<rparr>;
          st2 = st1\<lparr>all_businesses := all_businesses st @ bs,
                    total_fetched := total_fetched st + int (length bs)\<rparr>
      in if bs = [] then Break st1
         else if t \<le> total_fetched st2 \<or> 1000 \<le> total_fetched st2 then Break st2
         else Continue (st2\<lparr>offset := offset st + limit\<rparr>))"
  using assms by (simp add: search_iteration_def page_def Let_def)

lemma iteration_continue:
  assumes svc: "service k (search_request hdrs term latitude longitude radius_meters limit (int k * limit))
       = page (pages k) (totals k)"
    and ns: "\<not> stops pages totals k"
  shows "search_iteration service hdrs term latitude longitude radius_meters limit
           (state_after pages hdrs term latitude longitude radius_meters limit k) =
         Continue (state_after pages hdrs term latitude longitude radius_meters limit (Suc k))"
proof -
  let ?st = "state_after pages hdrs term latitude longitude radius_meters limit k"
  have "service (length (sent ?st))
      (search_request hdrs term latitude longitude radius_meters limit (offset ?st)) =
      page (pages k) (totals k)"
    using svc by (simp add: state_after_def)
  from iteration_page [where service = service and st = ?st and bs = "pages k" and t = "totals k",
      OF this] ns
  show ?thesis
    by (simp add: stops_def fetched_def state_after_def Let_def algebra_simps)
qed

lemma iteration_break:
  assumes svc: "service k (search_request hdrs term latitude longitude radius_meters limit (int k * limit))
       = page (pages k) (totals k)"
    and s: "stops pages totals k"
  shows "\<exists>st'. search_iteration service hdrs term latitude longitude radius_meters limit
           (state_after pages hdrs term latitude longitude radius_meters limit k) = Break st' \<and>
         all_businesses st' = concat (map pages [0..<Suc k]) \<and>
         sent st' = map (\<lambda>i. search_request hdrs term latitude longitude radius_meters limit
                               (int i * limit)) [0..<Suc k]"
proof -
  let ?st = "state_after pages hdrs term latitude longitude radius_meters limit k"
  have "service (length (sent ?st))
      (search_request hdrs term latitude longitude radius_meters limit (offset ?st)) =
      page (pages k) (totals k)"
    using svc by (simp add: state_after_def)
  from iteration_page [where service = service and st = ?st and bs = "pages k" and t = "totals k",
      OF this] s
  show ?thesis
    by (auto simp: stops_def fetched_def state_after_def Let_def)
qed

lemma search_loop_prefix:
  assumes "\<forall>k<n. service k (search_request hdrs term latitude longitude radius_meters limit
                 (int k * limit)) = page (pages k) (totals k)"
    and "\<forall>k<n. \<not> stops pages totals k"
  shows "search_loop service hdrs term latitude longitude radius_meters limit
           \<lparr>all_businesses = [], offset = 0, total_fetched = 0, sent = []\<rparr> =
         search_loop service hdrs term latitude longitude radius_meters limit
           (state_after pages hdrs term latitude longitude radius_meters limit n)"
  using assms
proof (induction n)
  case 0
  show ?case by (simp add: state_after_0)
next
  case (Suc n)
  from Suc.prems have svc: "service n (search_request hdrs term latitude longitude radius_meters limit
                 (int n * limit)) = page (pages n) (totals n)"
    and ns: "\<not> stops pages totals n" by simp_all
  have "search_loop service hdrs term latitude longitude radius_meters limit
           (state_after pages hdrs term latitude longitude radius_meters limit n) =
        search_loop service hdrs term latitude longitude radius_meters limit
           (state_after pages hdrs term latitude longitude radius_meters limit (Suc n))"
    by (subst search_loop.simps) (simp add: iteration_continue [where service = service and pages = pages
          and totals = totals and k = n, OF svc ns])
  moreover from Suc.prems have "search_loop service hdrs term latitude longitude radius_meters limit
           \<lparr>all_businesses = [], offset = 0, total_fetched = 0, sent = []\<rparr> =
         search_loop service hdrs term latitude longitude radius_meters limit
           (state_after pages hdrs term latitude longitude radius_meters limit n)"
    by (intro Suc.IH) simp_all
  ultimately show ?case by simp
qed




lemma search_loop_stops:
  assumes svc: "\<forall>k\<le>n. service k (search_request hdrs term latitude longitude radius_meters limit
                 (int k * limit)) = page (pages k) (totals k)"
    and ns: "\<forall>k<n. \<not> stops pages totals k"
    and s: "stops pages totals n"
  shows "search_loop service hdrs term latitude longitude radius_meters limit
           \<lparr>all_businesses = [], offset = 0, total_fetched = 0, sent = []\<rparr> =
         Some (map (\<lambda>k. search_request hdrs term latitude longitude radius_meters limit
                          (int k * limit)) [0..<Suc n],
               Inr (concat (map pages [0..<Suc n])))"
proof -
  from svc have pre: "\<forall>k<n. service k (search_request hdrs term latitude longitude radius_meters
      limit (int k * limit)) = page (pages k) (totals k)" by simp
  from svc have last: "service n (search_request hdrs term latitude longitude radius_meters
      limit (int n * limit)) = page (pages n) (totals n)" by simp
  from iteration_break [where service = service and pages = pages and totals = totals and k = n,
      OF last s]
  obtain st' where "search_iteration service hdrs term latitude longitude radius_meters limit
           (state_after pages hdrs term latitude longitude radius_meters limit n) = Break st'"
    and "all_businesses st' = concat (map pages [0..<Suc n])"
    and "sent st' = map (\<lambda>i. search_request hdrs term latitude longitude radius_meters limit
                               (int i * limit)) [0..<Suc n]"
    by blast
  then have "search_loop service hdrs term latitude longitude radius_meters limit
           (state_after pages hdrs term latitude longitude radius_meters limit n) =
         Some (map (\<lambda>k. search_request hdrs term latitude longitude radius_meters limit
                          (int k * limit)) [0..<Suc n],
               Inr (concat (map pages [0..<Suc n])))"
    by (subst search_loop.simps) simp
  with search_loop_prefix [where service = service and pages = pages and totals = totals
      and n = n, OF pre ns]
  show ?thesis by simp
qed

lemma iteration_error_status:
  assumes "service (length (sent st))
      (search_request hdrs term latitude longitude radius_meters limit (offset st)) = Inr response"
    and "status_code response \<noteq> 200"
  shows "search_iteration service hdrs term latitude longitude radius_meters limit st =
     Break (st\<lparr>sent := sent st @
                 [search_request hdrs term latitude longitude radius_meters limit (offset st)]\<rparr>)"
  using assms by (simp add: search_iteration_def Let_def)

lemma miles_to_meters_25: "miles_to_meters 25 = Inr 40233"
  by code_simp




text \<open>
  The loop and a failing status: when the first \<open>n\<close> requests are answered with pages
  that do not end the loop and request \<open>n\<close> is answered with a status other than 200,
  the loop raises nothing, issues no request after that one, and returns the records
  of the \<open>n\<close> pages.
\<close>

lemma search_loop_error_status:
  assumes svc: "\<forall>k<n. service k (search_request hdrs term latitude longitude radius_meters limit
                 (int k * limit)) = page (pages k) (totals k)"
    and ns: "\<forall>k<n. \<not> stops pages totals k"
    and err: "service n (search_request hdrs term latitude longitude radius_meters limit
                 (int n * limit)) = Inr response"
    and status: "status_code response \<noteq> 200"
  shows "search_loop service hdrs term latitude longitude radius_meters limit
      \<lparr>all_businesses = [], offset = 0, total_fetched = 0, sent = []\<rparr> =
      Some (map (\<lambda>k. search_request hdrs term latitude longitude radius_meters limit
                        (int k * limit)) [0..<Suc n],
            Inr (concat (map pages [0..<n])))"
proof -
  let ?st = "state_after pages hdrs term latitude longitude radius_meters limit n"
  have "service (length (sent ?st))
      (search_request hdrs term latitude longitude radius_meters limit (offset ?st)) = Inr response"
    using err by (simp add: state_after_def)
  from iteration_error_status [where service = service and st = ?st, OF this status]
  have "search_loop service hdrs term latitude longitude radius_meters limit ?st =
      Some (map (\<lambda>k. search_request hdrs term latitude longitude radius_meters limit
                        (int k * limit)) [0..<Suc n],
            Inr (concat (map pages [0..<n])))"
    by (subst search_loop.simps) (simp add: state_after_def)
  with search_loop_prefix [where service = service and pages = pages and totals = totals
      and n = n, OF svc ns]
  show ?thesis by simp
qed

lemma search_loop_error_status_example:
  "search_loop (failing_after 2 503) [(''Authorization'', ''Bearer KEY'')] ''happy hour''
     (Finite 1 0) (Finite 1 0) 40233 50
     \<lparr>all_businesses = [], offset = 0, total_fetched = 0, sent = []\<rparr> =
     Some (map (\<lambda>k. search_request [(''Authorization'', ''Bearer KEY'')] ''happy hour''
                       (Finite 1 0) (Finite 1 0) 40233 50 (int k * 50)) [0, 1, 2],
           Inr [JInt 0, JInt 1])"
  by code_simp

text \<open>
  Claim C2. A service answers every request with HTTP 500. The claim has the Paginator
  make one request, raise nothing and return the empty list. \<^verbatim>\<open>search_businesses\<close> as
  the source has it makes no request and ends in the \<^verbatim>\<open>SyntaxError\<close> of its definition;
  its body with \<^verbatim>\<open>api_key\<close> unbound makes no request and raises \<^verbatim>\<open>NameError\<close>; only with
  \<^verbatim>\<open>api_key\<close> bound does the body do what the claim says.
\<close>

theorem search_businesses_status_500:
  "search_businesses (answer_with 500 None) ''KEY'' (Finite 1 0) (Finite 1 0) 25 ''happy hour'' 50 =
     Some ([], Inl SyntaxError) \<and>
   search_businesses_body (answer_with 500 None) None (Finite 1 0) (Finite 1 0) 25
     ''happy hour'' 50 = Some ([], Inl NameError) \<and>
   search_businesses_body (answer_with 500 None) (Some ''KEY'') (Finite 1 0) (Finite 1 0) 25
     ''happy hour'' 50 =
     Some ([search_request [(''Authorization'', ''Bearer KEY'')] ''happy hour''
              (Finite 1 0) (Finite 1 0) 40233 50 0], Inr [])"
  by code_simp

text \<open>
  The loop and the scenario of three records: when the service reports a total of 3
  and answers the first request with two records and the second with one, the loop
  returns the three records in order after exactly two requests, whose offsets are 0
  and the page-size limit.
\<close>

lemma search_loop_two_pages:
  assumes first: "service 0 (search_request hdrs term latitude longitude radius_meters limit 0) =
      page [a, b] 3"
    and second: "service 1 (search_request hdrs term latitude longitude radius_meters limit limit) =
      page [c] 3"
  shows "\<exists>reqs. search_loop service hdrs term latitude longitude radius_meters limit
           \<lparr>all_businesses = [], offset = 0, total_fetched = 0, sent = []\<rparr> = Some (reqs, Inr [a, b, c]) \<and>
         length reqs = 2 \<and>
         map (\<lambda>request. map_of (params request) ''offset'') reqs =
           [Some (JInt 0), Some (JInt limit)]"
proof -
  let ?pages = "\<lambda>k::nat. if k = 0 then [a, b] else [c]"
  let ?totals = "\<lambda>k::nat. 3::int"
  have svc: "\<forall>k\<le>1. service k (search_request hdrs term latitude longitude radius_meters limit
                 (int k * limit)) = page (?pages k) (?totals k)"
    using first second by (simp add: le_Suc_eq)
  have ns: "\<forall>k<1. \<not> stops ?pages ?totals k"
    by (simp add: stops_def fetched_def)
  have s: "stops ?pages ?totals 1"
    by (simp add: stops_def fetched_def)
  from search_loop_stops [where service = service and pages = ?pages and totals = ?totals
      and n = 1, OF svc ns s]
  have "search_loop service hdrs term latitude longitude radius_meters limit
      \<lparr>all_businesses = [], offset = 0, total_fetched = 0, sent = []\<rparr> =
      Some ([search_request hdrs term latitude longitude radius_meters limit 0,
             search_request hdrs term latitude longitude radius_meters limit limit],
            Inr [a, b, c])"
    by simp
  then show ?thesis by (simp add: search_request_def)
qed

text \<open>
  Claim C3. A service reports a total of 3 and answers the first request with two
  records and the second with one. The claim has the Paginator return the three
  records after two requests with the offsets 0 and 50. \<^verbatim>\<open>search_businesses\<close> as the
  source has it makes no request and ends in the \<^verbatim>\<open>SyntaxError\<close> of its definition; its
  body with \<^verbatim>\<open>api_key\<close> unbound makes no request and raises \<^verbatim>\<open>NameError\<close>; only with
  \<^verbatim>\<open>api_key\<close> bound does the body do what the claim says.
\<close>

theorem search_businesses_three_records:
  "search_businesses three_records ''KEY'' (Finite 1 0) (Finite 1 0) 25 ''happy hour'' 50 =
     Some ([], Inl SyntaxError) \<and>
   search_businesses_body three_records None (Finite 1 0) (Finite 1 0) 25 ''happy hour'' 50 =
     Some ([], Inl NameError) \<and>
   search_businesses_body three_records (Some ''KEY'') (Finite 1 0) (Finite 1 0) 25
     ''happy hour'' 50 =
     Some ([search_request [(''Authorization'', ''Bearer KEY'')] ''happy hour''
              (Finite 1 0) (Finite 1 0) 40233 50 0,
            search_request [(''Authorization'', ''Bearer KEY'')] ''happy hour''
              (Finite 1 0) (Finite 1 0) 40233 50 50],
           Inr [JStr ''a'', JStr ''b'', JStr ''c''])"
  by code_simp

text \<open>
  Claim C10. Only the status 200 is a success. A response with any other status, 201
  and 204 included, ends the loop with the records accumulated so far, whatever its
  body; a response with status 200 has its body decoded and its page appended.
\<close>

theorem search_loop_status_200_only:
  assumes "service (length (sent st))
      (search_request hdrs term latitude longitude radius_meters limit (offset st)) = Inr response"
  shows "(status_code response \<noteq> 200 \<longrightarrow>
            search_loop service hdrs term latitude longitude radius_meters limit st =
              Some (sent st @ [search_request hdrs term latitude longitude radius_meters limit
                                 (offset st)],
                    Inr (all_businesses st))) \<and>
         (status_code response = 200 \<longrightarrow>
            (json_body response = None \<longrightarrow>
               search_loop service hdrs term latitude longitude radius_meters limit st =
                 Some (sent st @ [search_request hdrs term latitude longitude radius_meters limit
                                    (offset st)],
                       Inl JSONDecodeError)) \<and>
            (\<forall>bs t. json_body response =
                      Some (JObj [(''businesses'', JList bs), (''total'', JInt t)]) \<and>
                    bs \<noteq> [] \<and> t \<le> total_fetched st + int (length bs) \<longrightarrow>
               search_loop service hdrs term latitude longitude radius_meters limit st =
                 Some (sent st @ [search_request hdrs term latitude longitude radius_meters limit
                                    (offset st)],
                       Inr (all_businesses st @ bs))))"
proof (intro conjI impI allI)
  assume "status_code response \<noteq> 200"
  from iteration_error_status [where service = service and st = st, OF assms this]
  show "search_loop service hdrs term latitude longitude radius_meters limit st =
      Some (sent st @ [search_request hdrs term latitude longitude radius_meters limit (offset st)],
            Inr (all_businesses st))"
    by (subst search_loop.simps) simp
next
  assume "status_code response = 200" and "json_body response = None"
  with assms have "search_iteration service hdrs term latitude longitude radius_meters limit st =
      Raise JSONDecodeError (st\<lparr>sent := sent st @
          [search_request hdrs term latitude longitude radius_meters limit (offset st)]\<rparr>)"
    by (simp add: search_iteration_def Let_def)
  then show "search_loop service hdrs term latitude longitude radius_meters limit st =
      Some (sent st @ [search_request hdrs term latitude longitude radius_meters limit (offset st)],
            Inl JSONDecodeError)"
    by (subst search_loop.simps) simp
next
  fix bs t
  assume ok: "status_code response = 200"
    and body: "json_body response = Some (JObj [(''businesses'', JList bs), (''total'', JInt t)]) \<and>
       bs \<noteq> [] \<and> t \<le> total_fetched st + int (length bs)"
  from ok body have "response = \<lparr>status_code = 200,
      json_body = Some (JObj [(''businesses'', JList bs), (''total'', JInt t)])\<rparr>"
    by simp
  with assms have "service (length (sent st))
      (search_request hdrs term latitude longitude radius_meters limit (offset st)) = page bs t"
    by (simp add: page_def)
  from iteration_page [where service = service and st = st and bs = bs and t = t, OF this] body
  have "search_iteration service hdrs term latitude longitude radius_meters limit st =
      Break (st\<lparr>sent := sent st @
          [search_request hdrs term latitude longitude radius_meters limit (offset st)],
          all_businesses := all_businesses st @ bs,
          total_fetched := total_fetched st + int (length bs)\<rparr>)"
    by (simp add: Let_def)
  then show "search_loop service hdrs term latitude longitude radius_meters limit st =
      Some (sent st @ [search_request hdrs term latitude longitude radius_meters limit (offset st)],
            Inr (all_businesses st @ bs))"
    by (subst search_loop.simps) simp
qed

theorem search_loop_status_200_only_witness:
  "search_loop (answer_with 201 one_more) [] ''bar'' (Finite 1 0) (Finite 1 0) 40233 50 second_round =
     Some ([search_request [] ''bar'' (Finite 1 0) (Finite 1 0) 40233 50 0,
            search_request [] ''bar'' (Finite 1 0) (Finite 1 0) 40233 50 50], Inr [JStr ''x'']) \<and>
   search_loop (answer_with 204 one_more) [] ''bar'' (Finite 1 0) (Finite 1 0) 40233 50 second_round =
     Some ([search_request [] ''bar'' (Finite 1 0) (Finite 1 0) 40233 50 0,
            search_request [] ''bar'' (Finite 1 0) (Finite 1 0) 40233 50 50], Inr [JStr ''x'']) \<and>
   search_loop (answer_with 200 one_more) [] ''bar'' (Finite 1 0) (Finite 1 0) 40233 50 second_round =
     Some ([search_request [] ''bar'' (Finite 1 0) (Finite 1 0) 40233 50 0,
            search_request [] ''bar'' (Finite 1 0) (Finite 1 0) 40233 50 50],
           Inr [JStr ''x'', JStr ''y'']) \<and>
   search_loop (answer_with 200 None) [] ''bar'' (Finite 1 0) (Finite 1 0) 40233 50 second_round =
     Some ([search_request [] ''bar'' (Finite 1 0) (Finite 1 0) 40233 50 0,
            search_request [] ''bar'' (Finite 1 0) (Finite 1 0) 40233 50 50], Inl JSONDecodeError)"
proof -
  have a: "answer_with status body (length (sent second_round))
      (search_request [] ''bar'' (Finite 1 0) (Finite 1 0) 40233 50 (offset second_round)) =
      Inr \<lparr>status_code = status, json_body = body\<rparr>" for status body
    by (simp add: answer_with_def)
  show ?thesis
    using search_loop_status_200_only [where service = "answer_with 201 one_more"
        and st = second_round, OF a [of 201 one_more]]
      search_loop_status_200_only [where service = "answer_with 204 one_more"
        and st = second_round, OF a [of 204 one_more]]
      search_loop_status_200_only [where service = "answer_with 200 one_more"
        and st = second_round, OF a [of 200 one_more]]
      search_loop_status_200_only [where service = "answer_with 200 None"
        and st = second_round, OF a [of 200 None]]
    by (simp add: second_round_def one_more_def)
qed

section \<open>Properties of the radius conversion\<close>

lemma nearest_lower:
  fixes a d B :: int
  assumes d: "0 < d" and low: "2 * (B * d - a) < d"
  shows "B \<le> nearest a d"
proof (rule ccontr)
  assume "\<not> B \<le> nearest a d"
  then have lt: "nearest a d < B" by simp
  define t where "t = a div d"
  define r where "r = a mod d"
  define X where "X = B * d"
  define Y where "Y = t * d"
  have a: "a = Y + r" by (simp add: Y_def t_def r_def)
  have r: "0 \<le> r" "r < d" using d by (simp_all add: r_def)
  have low': "2 * (X - a) < d" using low by (simp add: X_def)
  have tq: "t \<le> nearest a d" by (simp add: nearest_def Let_def t_def)
  with lt have tB: "t \<le> B - 1" by simp
  show False
  proof (cases "t = B - 1")
    case True
    then have "B = t + 1" by simp
    then have "X = Y + d" by (simp add: X_def Y_def distrib_right)
    with a low' have "d < 2 * r" by arith
    then have "nearest a d = t + 1" by (simp add: nearest_def Let_def t_def r_def)
    with True lt show False by simp
  next
    case False
    with tB have "t + 2 \<le> B" by simp
    then have "(t + 2) * d \<le> B * d" using d by (intro mult_right_mono) simp_all
    then have "Y + 2 * d \<le> X" by (simp add: X_def Y_def distrib_right)
    with a low' r show False by arith
  qed
qed

lemma nearest_upper:
  fixes a d B :: int
  assumes d: "0 < d" and up: "d < 2 * (B * d - a)"
  shows "nearest a d < B"
proof (rule ccontr)
  assume "\<not> nearest a d < B"
  then have ge: "B \<le> nearest a d" by simp
  define t where "t = a div d"
  define r where "r = a mod d"
  define X where "X = B * d"
  define Y where "Y = t * d"
  have a: "a = Y + r" by (simp add: Y_def t_def r_def)
  have r: "0 \<le> r" "r < d" using d by (simp_all add: r_def)
  have up': "d < 2 * (X - a)" using up by (simp add: X_def)
  have qt: "nearest a d \<le> t + 1" by (simp add: nearest_def Let_def t_def)
  with ge have tB: "B - 1 \<le> t" by simp
  show False
  proof (cases "t = B - 1")
    case True
    then have "B = t + 1" by simp
    then have "X = Y + d" by (simp add: X_def Y_def distrib_right)
    with a up' have "2 * r < d" by arith
    then have "nearest a d = t" by (simp add: nearest_def Let_def t_def r_def)
    with True ge show False by simp
  next
    case False
    with tB have "B \<le> t" by simp
    then have "B * d \<le> t * d" using d by (intro mult_right_mono) simp_all
    then have "X \<le> Y" by (simp add: X_def Y_def)
    with a up' r d show False by arith
  qed
qed

lemma float_of_int_small:
  assumes "\<bar>n\<bar> < 2 ^ 53"
  shows "float_of_int n = Inr (Finite n 0)"
proof -
  have "bitlen \<bar>n\<bar> \<le> 53" using assms by (simp add: bitlen_le_iff_power)
  then have s: "max (bitlen \<bar>n\<bar> - 53) (- 1074 - 0) \<le> 0" by simp
  have "\<bar>n\<bar> < 2 ^ 1024" using assms by (rule less_trans) simp
  then have "round_double n 0 = Finite (sgn n * \<bar>n\<bar>) 0"
    using s by (simp add: round_double_def Let_def)
  then show ?thesis by (simp add: float_of_int_def mult_sgn_abs)
qed

lemma mod_160934_even: "(n::int) * 160934 mod 100 \<le> 98"
proof -
  have e: "n * 160934 = 2 * (n * 80467)" by simp
  have "n * 160934 mod 100 = (2 * (n * 80467)) mod (2 * 50)" by (simp only: e) simp
  also have "\<dots> = 2 * ((n * 80467) mod 50)" by (rule mult_mod_right [symmetric])
  finally have "n * 160934 mod 100 = 2 * ((n * 80467) mod 50)" .
  moreover have "(n * 80467) mod 50 < 50" by simp
  ultimately show ?thesis by simp
qed

lemma low_arith:
  fixes n K f d a :: int
  assumes "0 < n" and "n * 160934 = 100 * K + f" and "0 \<le> f" and "a = n * 7077952172180111"
    and "a < d * 9007199254740992"
  shows "2 * (K * 4398046511104 - a) < d"
  using assms by simp

lemma up_arith:
  fixes n K f d a :: int
  assumes "0 < n" and "n * 160934 = 100 * K + f" and "f \<le> 98" and "a = n * 7077952172180111"
    and "d * 4503599627370496 \<le> a" and "d \<le> 274877906944"
  shows "d < 2 * ((K + 1) * 4398046511104 - a)"
  using assms by simp

lemma round_double_small:
  fixes a s e :: int
  assumes a_pos: "0 < a"
    and smax: "max (bitlen a - 53) (- 1074 - e) = s"
    and neg: "(if s \<le> 0 then e else e + s) < 0"
  shows "round_double a e =
     Finite (if s \<le> 0 then a else nearest a (2 ^ nat s)) (if s \<le> 0 then e else e + s)"
proof -
  have sg: "sgn a = 1" using a_pos by simp
  have ab: "\<bar>a\<bar> = a" using a_pos by simp
  have no: "\<not> 0 \<le> (if s \<le> 0 then e else e + s)" using neg by simp
  show ?thesis
    unfolding round_double_def Let_def
    unfolding ab
    unfolding smax
    unfolding sg
    by (simp only: no simp_thms if_False mult_1)
qed

lemma product_exact:
  fixes n :: int
  assumes pos: "0 < n" and small: "n * 7077952172180111 < 2 ^ 91"
  shows "\<exists>q x. round_double (n * 7077952172180111) (- 42) = Finite q x \<and>
     int_of_float (Finite q x) = Inr (n * 160934 div 100)"
proof -
  define a where "a = n * 7077952172180111"
  define K where "K = n * 160934 div 100"
  define f where "f = n * 160934 mod 100"
  define s where "s = bitlen a - 53"
  define d :: int where "d = 2 ^ nat s"
  define P :: int where "P = 2 ^ nat (42 - s)"
  have a_pos: "0 < a" using pos by (simp add: a_def)
  have a_ge: "2 ^ 52 \<le> a" using pos by (simp add: a_def)
  have a_lt: "a < 2 ^ 91" using small by (simp add: a_def)
  have "53 \<le> bitlen a" using a_ge by (simp add: bitlen_ge_iff_power)
  moreover have "bitlen a \<le> 91" using a_lt by (simp add: bitlen_le_iff_power)
  ultimately have s: "0 \<le> s" "s \<le> 38" by (simp_all add: s_def)
  from bitlen_bounds [OF a_pos]
  have "2 ^ nat (s + 52) \<le> a" and "a < 2 ^ nat (s + 53)"
    by (simp_all add: s_def)
  moreover have "nat (s + 52) = nat s + 52" "nat (s + 53) = nat s + 53" using s by simp_all
  ultimately have da: "d * 2 ^ 52 \<le> a" "a < d * 2 ^ 53"
    by (simp_all add: d_def power_add)
  have d_pos: "0 < d" by (simp add: d_def)
  have "(2::int) ^ nat s \<le> 2 ^ 38" using s by (intro power_increasing) simp_all
  then have d_le: "d \<le> 2 ^ 38" by (simp add: d_def)
  have P_pos: "0 < P" by (simp add: P_def)
  have "nat (42 - s) + nat s = 42" using s by simp
  then have "(2::int) ^ (nat (42 - s) + nat s) = 2 ^ 42" by simp
  then have Pd: "P * d = 2 ^ 42" by (simp add: P_def d_def power_add)
  have E: "n * 160934 = 100 * K + f" by (simp only: K_def f_def mult_div_mod_eq)
  have f: "0 \<le> f" "f \<le> 98" by (simp_all add: f_def mod_160934_even)
  have da': "d * 4503599627370496 \<le> a" "a < d * 9007199254740992"
    using da by simp_all
  have d_le': "d \<le> 274877906944" using d_le by simp
  have Pd': "P * d = 4398046511104" using Pd by simp
  have KPd: "B * P * d = B * 4398046511104" for B :: int
    by (simp only: mult.assoc Pd')
  have low: "2 * (K * P * d - a) < d"
    unfolding KPd by (rule low_arith [OF pos E f(1) a_def da'(2)])
  have up: "d < 2 * ((K + 1) * P * d - a)"
    unfolding KPd by (rule up_arith [OF pos E f(2) a_def da'(1) d_le'])
  define q where "q = (if s \<le> 0 then a else nearest a d)"
  have q_eq: "q = nearest a d"
  proof (cases "s \<le> 0")
    case True
    with s have "s = 0" by simp
    then have "d = 1" by (simp add: d_def)
    then show ?thesis using True by (simp add: q_def nearest_def)
  next
    case False
    then show ?thesis by (simp add: q_def)
  qed
  from nearest_lower [OF d_pos low] have q_low: "K * P \<le> q" by (simp add: q_eq)
  from nearest_upper [OF d_pos up] have q_up: "q < (K + 1) * P" by (simp add: q_eq)
  have "0 \<le> K" using pos by (simp add: K_def pos_imp_zdiv_nonneg_iff)
  then have "0 \<le> K * P" using P_pos by simp
  with q_low have q_nonneg: "0 \<le> q" by simp
  have "q div P = K"
  proof (rule int_div_pos_eq)
    show "q = P * K + (q - K * P)" by (simp add: algebra_simps)
    show "0 \<le> q - K * P" using q_low by simp
    show "q - K * P < P" using q_up by (simp add: algebra_simps)
  qed
  have x: "(if s \<le> 0 then - 42 else - 42 + s) = s - 42" using s by simp
  have smax: "max (bitlen a - 53) (- 1074 - (- 42)) = s" using s by (simp add: s_def)
  have "(if s \<le> 0 then - 42 else - 42 + s) < 0" using s by simp
  from round_double_small [OF a_pos smax this]
  have rd: "round_double a (- 42) = Finite q (s - 42)"
    by (simp only: x q_def d_def)
  have "int_of_float (Finite q (s - 42)) = Inr (sgn q * (\<bar>q\<bar> div 2 ^ nat (42 - s)))"
    using s by simp
  also have "\<dots> = Inr (q div P)"
  proof (cases "q = 0")
    case True
    then show ?thesis by simp
  next
    case False
    with q_nonneg have "0 < q" by simp
    then show ?thesis by (simp add: P_def)
  qed
  finally have res: "int_of_float (Finite q (s - 42)) = Inr K" using \<open>q div P = K\<close> by simp
  from rd res
  have "round_double (n * 7077952172180111) (- 42) = Finite q (s - 42) \<and>
     int_of_float (Finite q (s - 42)) = Inr (n * 160934 div 100)"
    by (simp only: a_def K_def)
  then show ?thesis by (intro exI)
qed

lemma round_double_minus:
  assumes "round_double a e = Finite q x" and "0 < a"
  shows "round_double (- a) e = Finite (- q) x"
  using assms by (auto simp: round_double_def Let_def split: if_splits)

lemma int_of_float_minus:
  assumes "int_of_float (Finite q x) = Inr k"
  shows "int_of_float (Finite (- q) x) = Inr (- k)"
  using assms by (auto simp: sgn_minus split: if_splits)

lemma miles_to_meters_pos:
  assumes pos: "0 < n" and small: "n \<le> 349801753154"
  shows "miles_to_meters n = Inr (n * 160934 div 100)"
    and "miles_to_meters (- n) = Inr (- (n * 160934 div 100))"
proof -
  from small have "n * 7077952172180111 \<le> 349801753154 * 7077952172180111" by simp
  then have lt: "n * 7077952172180111 < 2 ^ 91" by simp
  from product_exact [OF pos lt] obtain q x
    where rd: "round_double (n * 7077952172180111) (- 42) = Finite q x"
      and res: "int_of_float (Finite q x) = Inr (n * 160934 div 100)"
    by blast
  have "\<bar>n\<bar> < 2 ^ 53" using pos small by simp
  then have fl: "float_of_int n = Inr (Finite n 0)" by (rule float_of_int_small)
  show "miles_to_meters n = Inr (n * 160934 div 100)"
    unfolding miles_to_meters_def meters_per_mile_def fl bind_err_simps float_mul.simps
    by (simp only: add_0 rd res)
  have "\<bar>- n\<bar> < 2 ^ 53" using pos small by simp
  then have fl': "float_of_int (- n) = Inr (Finite (- n) 0)" by (rule float_of_int_small)
  have "0 < n * 7077952172180111" using pos by simp
  from round_double_minus [OF rd this]
  have rd': "round_double (- n * 7077952172180111) (- 42) = Finite (- q) x"
    by (simp only: mult_minus_left)
  show "miles_to_meters (- n) = Inr (- (n * 160934 div 100))"
    unfolding miles_to_meters_def meters_per_mile_def fl' bind_err_simps float_mul.simps
    by (simp only: add_0 rd' int_of_float_minus [OF res])
qed

lemma miles_to_meters_0: "miles_to_meters 0 = Inr 0"
  by code_simp

text \<open>
  Claim C8, as amended. For every radius of at most 349801753154 miles in magnitude,
  the radius sent to the service is the truncation toward zero of the exact product
  \<open>radius_miles * 1609.34\<close>; 25 miles give 40233 meters.
\<close>

theorem miles_to_meters_truncates:
  assumes "\<bar>radius_miles\<bar> \<le> 349801753154"
  shows "miles_to_meters radius_miles = Inr (exact_meters radius_miles)"
proof -
  consider "radius_miles = 0" | "0 < radius_miles" | "radius_miles < 0" by linarith
  then show ?thesis
  proof cases
    case 1
    then show ?thesis by (simp add: miles_to_meters_0 exact_meters_def)
  next
    case 2
    with assms have "radius_miles \<le> 349801753154" by simp
    from miles_to_meters_pos(1) [OF 2 this] 2 show ?thesis by (simp add: exact_meters_def)
  next
    case 3
    then have pos: "0 < - radius_miles" by simp
    from assms 3 have "- radius_miles \<le> 349801753154" by simp
    from miles_to_meters_pos(2) [OF pos this] 3 show ?thesis by (simp add: exact_meters_def)
  qed
qed

theorem miles_to_meters_truncates_witness:
  "\<bar>25\<bar> \<le> (349801753154::int) \<and> miles_to_meters 25 = Inr 40233"
  using miles_to_meters_truncates [of 25] by (simp add: exact_meters_def)

text \<open>
  Claim C8 as stated fails for larger radii: the product is a binary64 number, rounded
  before it is truncated. For 349801753197 miles the exact product is
  562949953490059.98, the float is 562949953490060.
\<close>

theorem miles_to_meters_rounds:
  "miles_to_meters 349801753197 = Inr 562949953490060 \<and>
   exact_meters 349801753197 = 562949953490059"
  by code_simp

section \<open>Properties of the Writer\<close>

lemma infinity_text_not_json: "json_text infinity_text = NotJSON"
  by code_simp

lemma encode_infinite_info: "encode float_repr 0 (JList [infinite_info]) = infinity_text"
  by code_simp

text \<open>
  Claim C7. The Writer is given the record extracted from a raw record whose rating
  is infinite. The claim has the file hold valid JSON. \<^verbatim>\<open>save_to_json\<close> writes
  \<^verbatim>\<open>"rating": Infinity\<close>, which is not JSON, whatever the timestamp and the
  representation of finite floats.
\<close>

theorem save_to_json_writes_infinity:
  "extract_business_info [infinite_rating] = Inr [infinite_info] \<and>
   save_to_json float_repr timestamp any_file_system [infinite_info] (Some ''out.json'') =
     Inr (''out.json'', any_file_system\<lparr>files := (files any_file_system)
            (''out.json'' := Some infinity_text)\<rparr>) \<and>
   json_text infinity_text = NotJSON"
proof (intro conjI)
  show "extract_business_info [infinite_rating] = Inr [infinite_info]"
    by code_simp
  show "save_to_json float_repr timestamp any_file_system [infinite_info] (Some ''out.json'') =
     Inr (''out.json'', any_file_system\<lparr>files := (files any_file_system)
            (''out.json'' := Some infinity_text)\<rparr>)"
    by (simp add: save_to_json_def any_file_system_def Let_def encode_infinite_info
        del: encode.simps)
  show "json_text infinity_text = NotJSON"
    by (rule infinity_text_not_json)
qed

text \<open>The file written for the two sample records is valid JSON.\<close>

lemma save_to_json_sample_valid:
  "(case extract_business_info [sample_record, priced_record] of
      Inl e \<Rightarrow> None
    | Inr data \<Rightarrow>
        map_option json_text
          (written (save_to_json (\<lambda>m e. ''4.5'') ''20240101_120000'' any_file_system data None))) =
   Some Valid"
  by code_simp

end
